theory Spec2Isabelle
  imports Main "HOL-Library.Word" "HOL-Library.Sublist"
begin

text \<open>
  The extraction pipeline of the exam quiz application, its Upload page and its Exam page,
  as functions of HOL: the two-stage edge function \<^verbatim>\<open>extract-questions\<close> (storage
  download, chunked base64 encoding, OCR with fallback, structuring by a language model,
  classification of failures), \<^verbatim>\<open>processFile\<close> of the Upload page and
  \<^verbatim>\<open>handleSubmit\<close> of the Exam page. The runtime functions the code calls
  (\<^verbatim>\<open>btoa\<close>, \<^verbatim>\<open>atob\<close>, \<^verbatim>\<open>JSON.parse\<close>, the string methods) are modelled from
  their standards; the services it calls are a record of outcomes, and each outbound call
  is logged.
\<close>

section \<open>Strings and bytes\<close>

text \<open>
  A JavaScript string is modelled as a HOL \<^typ>\<open>string\<close>: a sequence of code units
  below 256 (the Latin-1 range). Texts with code units above 255 are outside the model.
  A \<^verbatim>\<open>Uint8Array\<close> is a list of 8-bit words.
\<close>

type_synonym byte = "8 word"

text \<open>
  \<^verbatim>\<open>s.toLowerCase()\<close>: on code units below 256 the lower-case mapping sends
  \<^verbatim>\<open>A-Z\<close> and the accented capitals \<^verbatim>\<open>U+00C0-U+00DE\<close> (the multiplication sign
  \<^verbatim>\<open>U+00D7\<close> apart) 32 places up and leaves every other code unit alone.
\<close>

definition lower_unit :: "char \<Rightarrow> char" where
  "lower_unit c =
     (let n = (of_char c :: nat)
      in if (65 \<le> n \<and> n \<le> 90) \<or> (192 \<le> n \<and> n \<le> 222 \<and> n \<noteq> 215)
         then char_of (n + 32) else c)"

definition toLowerCase :: "string \<Rightarrow> string" where
  "toLowerCase s = map lower_unit s"

text \<open>\<^verbatim>\<open>s.endsWith(t)\<close> and the test that a text starts with a given literal.\<close>

definition endsWith :: "string \<Rightarrow> string \<Rightarrow> bool" where
  "endsWith s t = (length t \<le> length s \<and> drop (length s - length t) s = t)"

definition startsWith :: "string \<Rightarrow> string \<Rightarrow> bool" where
  "startsWith s p = (take (length p) s = p)"

text \<open>
  \<^verbatim>\<open>s.trim()\<close> removes white space and line terminators from both ends; below 256
  these are TAB, LF, VT, FF, CR, SPACE and NO-BREAK SPACE.
\<close>

definition js_space :: "char \<Rightarrow> bool" where
  "js_space c =
     (c = CHR 0x09 \<or> c = CHR 0x0A \<or> c = CHR 0x0B \<or> c = CHR 0x0C \<or> c = CHR 0x0D
      \<or> c = CHR 0x20 \<or> c = CHR 0xA0)"

definition trim :: "string \<Rightarrow> string" where
  "trim s = rev (dropWhile js_space (rev (dropWhile js_space s)))"

text \<open>
  \<^verbatim>\<open>s.replace(/re/g, '')\<close>, for a regular expression given by its matcher: \<open>m t\<close> is
  the length of the match of the expression at the start of \<open>t\<close>, if there is one. The
  text is scanned from the left; a match is dropped and the scan goes on behind it; where
  nothing matches (or the match is empty) the code unit is kept.
\<close>

fun remove_all :: "(string \<Rightarrow> nat option) \<Rightarrow> string \<Rightarrow> string" where
  "remove_all m [] = []"
| "remove_all m (c # cs) =
     (case m (c # cs) of
        None \<Rightarrow> c # remove_all m cs
      | Some n \<Rightarrow> if n = 0 then c # remove_all m cs else remove_all m (drop (n - 1) cs))"

text \<open>The optional newline \<^verbatim>\<open>\n?\<close> at the start of a text: greedy, so taken if there.\<close>

definition optional_newline :: "string \<Rightarrow> nat" where
  "optional_newline s = (case s of [] \<Rightarrow> 0 | c # _ \<Rightarrow> if c = CHR 0x0A then 1 else 0)"

text \<open>The matchers of \<^verbatim>\<open>/```json\n?/\<close> and \<^verbatim>\<open>/```\n?/\<close>.\<close>

definition match_json_fence :: "string \<Rightarrow> nat option" where
  "match_json_fence s =
     (if startsWith s ''```json'' then Some (7 + optional_newline (drop 7 s)) else None)"

definition match_fence :: "string \<Rightarrow> nat option" where
  "match_fence s =
     (if startsWith s ''```'' then Some (3 + optional_newline (drop 3 s)) else None)"

text \<open>
  The handler's post-processing of the model's text:
  \<^verbatim>\<open>questionsText.replace(/```json\n?/g, '').replace(/```\n?/g, '').trim()\<close>.
\<close>

definition cleanedText :: "string \<Rightarrow> string" where
  "cleanedText questionsText =
     trim (remove_all match_fence (remove_all match_json_fence questionsText))"

text \<open>\<^verbatim>\<open>parts.join(sep)\<close> on strings.\<close>

fun join :: "string \<Rightarrow> string list \<Rightarrow> string" where
  "join sep [] = []"
| "join sep [x] = x"
| "join sep (x # y # ys) = x @ sep @ join sep (y # ys)"

section \<open>The MIME type of a storage key\<close>

text \<open>
  \<^verbatim>\<open>filePath.toLowerCase().endsWith('.pdf') ? 'application/pdf'
   : filePath.toLowerCase().endsWith('.jpg') || filePath.toLowerCase().endsWith('.jpeg')
   ? 'image/jpeg' : 'image/png'\<close>
\<close>

definition mimeType_of :: "string \<Rightarrow> string" where
  "mimeType_of filePath =
     (if endsWith (toLowerCase filePath) ''.pdf'' then ''application/pdf''
      else if endsWith (toLowerCase filePath) ''.jpg'' \<or> endsWith (toLowerCase filePath) ''.jpeg''
      then ''image/jpeg''
      else ''image/png'')"

text \<open>
  The specification's reading of "ends in the extension, in any letter case": the last
  code units of the key are those of the extension, each in lower or in upper case.
\<close>

definition upper_ascii :: "char \<Rightarrow> char" where
  "upper_ascii c =
     (let n = (of_char c :: nat) in if 97 \<le> n \<and> n \<le> 122 then char_of (n - 32) else c)"

definition same_letter :: "char \<Rightarrow> char \<Rightarrow> bool" where
  "same_letter c d = (c = d \<or> c = upper_ascii d)"

definition ends_with_any_case :: "string \<Rightarrow> string \<Rightarrow> bool" where
  "ends_with_any_case key ext =
     (length ext \<le> length key \<and> list_all2 same_letter (drop (length key - length ext) key) ext)"

section \<open>JavaScript values and exceptions\<close>

text \<open>
  The values that \<^verbatim>\<open>JSON.parse\<close> produces, and \<^verbatim>\<open>undefined\<close>. A number is kept
  as its decimal literal: \<open>JNum m e\<close> is the double nearest to \<open>m \<times> 10\<^sup>e\<close>. An object is
  the list of its own properties.
\<close>

datatype jsval =
    JUndefined
  | JNull
  | JBool bool
  | JNum int int
  | JStr string
  | JArr "jsval list"
  | JObj "(string \<times> jsval) list"

text \<open>
  What can be thrown: \<^verbatim>\<open>new Error(message)\<close>, an error object the runtime raises (a
  \<^verbatim>\<open>TypeError\<close>, a \<^verbatim>\<open>SyntaxError\<close>, the \<^verbatim>\<open>InvalidCharacterError\<close> of
  \<^verbatim>\<open>atob\<close>; all are instances of \<^verbatim>\<open>Error\<close>, with a message the engine words), or a
  value that is not an \<^verbatim>\<open>Error\<close>.
\<close>

datatype engine_error = TypeError | SyntaxError | InvalidCharacterError

datatype js_exn = Error string | Engine engine_error | NonError

text \<open>
  The double nearest to \<open>m \<times> 10\<^sup>e\<close> is zero when \<open>m\<close> is, or when the magnitude is at
  most half the least positive double, which is 2 to the power -1074.
\<close>

definition num_is_zero :: "int \<Rightarrow> int \<Rightarrow> bool" where
  "num_is_zero m e = (m = 0 \<or> (e < 0 \<and> \<bar>m\<bar> * 2 ^ 1075 \<le> 10 ^ nat (- e)))"

text \<open>\<^verbatim>\<open>ToBoolean\<close>: what \<^verbatim>\<open>!v\<close>, \<^verbatim>\<open>v && w\<close>, \<^verbatim>\<open>v || w\<close> and \<^verbatim>\<open>if (v)\<close> test.\<close>

fun truthy :: "jsval \<Rightarrow> bool" where
  "truthy JUndefined = False"
| "truthy JNull = False"
| "truthy (JBool b) = b"
| "truthy (JNum m e) = (\<not> num_is_zero m e)"
| "truthy (JStr s) = (s \<noteq> [])"
| "truthy (JArr xs) = True"
| "truthy (JObj ms) = True"

fun own_property :: "(string \<times> jsval) list \<Rightarrow> string \<Rightarrow> jsval" where
  "own_property [] k = JUndefined"
| "own_property ((k', v) # ms) k = (if k' = k then v else own_property ms k)"

text \<open>
  Reading a property \<^verbatim>\<open>v.k\<close>, for the names the code reads (\<^verbatim>\<open>filePath\<close>,
  \<^verbatim>\<open>handle\<close>, \<^verbatim>\<open>text\<close>, \<^verbatim>\<open>ocr\<close>, \<^verbatim>\<open>choices\<close>, \<^verbatim>\<open>message\<close>,
  \<^verbatim>\<open>content\<close>, \<^verbatim>\<open>questions\<close>): none of them is a property of a primitive, of an
  array or of a prototype. On \<^verbatim>\<open>null\<close> and \<^verbatim>\<open>undefined\<close> the read throws a
  \<^verbatim>\<open>TypeError\<close>. Destructuring \<^verbatim>\<open>const { k } = v\<close> behaves the same way.
\<close>

fun get_prop :: "jsval \<Rightarrow> string \<Rightarrow> js_exn + jsval" where
  "get_prop JUndefined k = Inl (Engine TypeError)"
| "get_prop JNull k = Inl (Engine TypeError)"
| "get_prop (JObj ms) k = Inr (own_property ms k)"
| "get_prop v k = Inr JUndefined"

text \<open>Reading \<^verbatim>\<open>v[0]\<close>.\<close>

fun get_index0 :: "jsval \<Rightarrow> js_exn + jsval" where
  "get_index0 JUndefined = Inl (Engine TypeError)"
| "get_index0 JNull = Inl (Engine TypeError)"
| "get_index0 (JArr xs) = Inr (case xs of [] \<Rightarrow> JUndefined | x # _ \<Rightarrow> x)"
| "get_index0 (JStr s) = Inr (case s of [] \<Rightarrow> JUndefined | c # _ \<Rightarrow> JStr [c])"
| "get_index0 (JObj ms) = Inr (own_property ms ''0'')"
| "get_index0 v = Inr JUndefined"

text \<open>Reading \<^verbatim>\<open>v.length\<close>.\<close>

fun get_length :: "jsval \<Rightarrow> js_exn + jsval" where
  "get_length JUndefined = Inl (Engine TypeError)"
| "get_length JNull = Inl (Engine TypeError)"
| "get_length (JArr xs) = Inr (JNum (int (length xs)) 0)"
| "get_length (JStr s) = Inr (JNum (int (length s)) 0)"
| "get_length (JObj ms) = Inr (own_property ms ''length'')"
| "get_length v = Inr JUndefined"

text \<open>\<^verbatim>\<open>Array.isArray(v)\<close> and \<^verbatim>\<open>v === 0\<close>.\<close>

fun isArray :: "jsval \<Rightarrow> bool" where
  "isArray (JArr xs) = True"
| "isArray v = False"


text \<open>Sequencing of steps that may throw.\<close>

definition sum_bind :: "'e + 'a \<Rightarrow> ('a \<Rightarrow> 'e + 'b) \<Rightarrow> 'e + 'b" where
  "sum_bind r f = (case r of Inl e \<Rightarrow> Inl e | Inr x \<Rightarrow> f x)"

text \<open>\<^verbatim>\<open>data.choices[0].message.content\<close>.\<close>

definition choices_content :: "jsval \<Rightarrow> js_exn + jsval" where
  "choices_content data =
     sum_bind (get_prop data ''choices'') (\<lambda>choices.
     sum_bind (get_index0 choices) (\<lambda>choice.
     sum_bind (get_prop choice ''message'') (\<lambda>message.
     get_prop message ''content'')))"

text \<open>
  \<^verbatim>\<open>ToString\<close>, as \<^verbatim>\<open>join\<close> applies it to the elements of an array. The decimal
  rendering of a number is the engine's; it is a parameter.
\<close>

fun to_string :: "(int \<Rightarrow> int \<Rightarrow> string) \<Rightarrow> jsval \<Rightarrow> string" where
  "to_string render JUndefined = ''undefined''"
| "to_string render JNull = ''null''"
| "to_string render (JBool b) = (if b then ''true'' else ''false'')"
| "to_string render (JNum m e) = render m e"
| "to_string render (JStr s) = s"
| "to_string render (JArr xs) =
     join '','' (map (\<lambda>x. if x = JUndefined \<or> x = JNull then [] else to_string render x) xs)"
| "to_string render (JObj ms) = ''[object Object]''"

section \<open>JSON.parse\<close>

text \<open>
  The runtime's \<^verbatim>\<open>JSON.parse\<close> (ECMA-404): a lexer from the text to tokens, then a
  pushdown recogniser that builds the value. A failure at either step is the
  \<^verbatim>\<open>SyntaxError\<close> that \<^verbatim>\<open>JSON.parse\<close> throws. A \<^verbatim>\<open>\uXXXX\<close> escape above
  \<^verbatim>\<open>00FF\<close> denotes a code unit outside the model of strings; its low byte is kept.
\<close>

datatype token = TLBrace | TRBrace | TLBracket | TRBracket | TColon | TComma | TLit jsval

definition is_digit :: "char \<Rightarrow> bool" where
  "is_digit c = (48 \<le> (of_char c :: nat) \<and> (of_char c :: nat) \<le> 57)"

definition digit_val :: "char \<Rightarrow> nat" where
  "digit_val c = of_char c - 48"

definition hex_val :: "char \<Rightarrow> nat option" where
  "hex_val c =
     (let n = (of_char c :: nat)
      in if 48 \<le> n \<and> n \<le> 57 then Some (n - 48)
         else if 65 \<le> n \<and> n \<le> 70 then Some (n - 55)
         else if 97 \<le> n \<and> n \<le> 102 then Some (n - 87)
         else None)"

definition decimal :: "string \<Rightarrow> nat" where
  "decimal ds = foldl (\<lambda>n d. 10 * n + digit_val d) 0 ds"

definition json_ws :: "char \<Rightarrow> bool" where
  "json_ws c = (c = CHR 0x20 \<or> c = CHR 0x09 \<or> c = CHR 0x0A \<or> c = CHR 0x0D)"

definition simple_escape :: "char \<Rightarrow> char option" where
  "simple_escape e =
     (if e = CHR 0x22 then Some (CHR 0x22)
      else if e = CHR 0x5C then Some (CHR 0x5C)
      else if e = CHR ''/'' then Some (CHR ''/'')
      else if e = CHR ''b'' then Some (CHR 0x08)
      else if e = CHR ''f'' then Some (CHR 0x0C)
      else if e = CHR ''n'' then Some (CHR 0x0A)
      else if e = CHR ''r'' then Some (CHR 0x0D)
      else if e = CHR ''t'' then Some (CHR 0x09)
      else None)"

definition unicode_escape :: "char \<Rightarrow> char \<Rightarrow> char \<Rightarrow> char \<Rightarrow> char option" where
  "unicode_escape a b c d =
     (case (hex_val a, hex_val b, hex_val c, hex_val d) of
        (Some h1, Some h2, Some h3, Some h4) \<Rightarrow> Some (char_of (((h1 * 16 + h2) * 16 + h3) * 16 + h4))
      | _ \<Rightarrow> None)"

definition cons_char :: "char \<Rightarrow> (string \<times> string) option \<Rightarrow> (string \<times> string) option" where
  "cons_char c r = (case r of None \<Rightarrow> None | Some (s, rest) \<Rightarrow> Some (c # s, rest))"

fun lex_string :: "string \<Rightarrow> (string \<times> string) option" where
  "lex_string [] = None"
| "lex_string (c # cs) =
     (if c = CHR 0x22 then Some ([], cs)
      else if c = CHR 0x5C then
        (case cs of
           [] \<Rightarrow> None
         | e # cs' \<Rightarrow>
             if e = CHR ''u'' then
               (case cs' of
                  h1 # h2 # h3 # h4 # rest \<Rightarrow>
                    (case unicode_escape h1 h2 h3 h4 of
                       None \<Rightarrow> None
                     | Some u \<Rightarrow> cons_char u (lex_string rest))
                | _ \<Rightarrow> None)
             else
               (case simple_escape e of
                  None \<Rightarrow> None
                | Some u \<Rightarrow> cons_char u (lex_string cs')))
      else if (of_char c :: nat) < 32 then None
      else cons_char c (lex_string cs))"

definition lex_sign :: "string \<Rightarrow> bool \<times> string" where
  "lex_sign s = (case s of c # r \<Rightarrow> if c = CHR ''-'' then (True, r) else (False, s) | [] \<Rightarrow> (False, s))"

definition lex_exp_sign :: "string \<Rightarrow> bool \<times> string" where
  "lex_exp_sign s =
     (case s of
        c # r \<Rightarrow> if c = CHR ''-'' then (True, r) else if c = CHR ''+'' then (False, r) else (False, s)
      | [] \<Rightarrow> (False, s))"

definition lex_fraction :: "string \<Rightarrow> (string \<times> string) option" where
  "lex_fraction s =
     (case s of
        c # r \<Rightarrow>
          if c = CHR ''.''
          then (if takeWhile is_digit r = [] then None
                else Some (takeWhile is_digit r, dropWhile is_digit r))
          else Some ([], s)
      | [] \<Rightarrow> Some ([], s))"

definition lex_exponent :: "string \<Rightarrow> (int \<times> string) option" where
  "lex_exponent s =
     (case s of
        c # r \<Rightarrow>
          if c = CHR ''e'' \<or> c = CHR ''E''
          then (case lex_exp_sign r of
                  (neg, r') \<Rightarrow>
                    if takeWhile is_digit r' = [] then None
                    else Some ((if neg then - 1 else 1) * int (decimal (takeWhile is_digit r')),
                               dropWhile is_digit r'))
          else Some (0, s)
      | [] \<Rightarrow> Some (0, s))"

definition lex_number :: "string \<Rightarrow> (jsval \<times> string) option" where
  "lex_number s =
     (case lex_sign s of
        (neg, s1) \<Rightarrow>
          (let ip = takeWhile is_digit s1
           in if ip = [] \<or> (1 < length ip \<and> hd ip = CHR ''0'') then None
              else
                (case lex_fraction (dropWhile is_digit s1) of
                   None \<Rightarrow> None
                 | Some (fp, s3) \<Rightarrow>
                     (case lex_exponent s3 of
                        None \<Rightarrow> None
                      | Some (ex, s5) \<Rightarrow>
                          Some (JNum ((if neg then - 1 else 1) * int (decimal (ip @ fp)))
                                     (ex - int (length fp)), s5)))))"

definition cons_token :: "token \<Rightarrow> token list option \<Rightarrow> token list option" where
  "cons_token t r = (case r of None \<Rightarrow> None | Some ts \<Rightarrow> Some (t # ts))"

lemma cons_char_Some: "cons_char c r = Some (s, rest) \<longleftrightarrow> (\<exists>s'. r = Some (s', rest) \<and> s = c # s')"
  by (auto simp: cons_char_def split: option.splits)

lemma lex_string_length: "lex_string cs = Some (s, rest) \<Longrightarrow> length rest \<le> length cs"
proof (induction "length cs" arbitrary: cs s rest rule: less_induct)
  case less
  have IH: "length rest' \<le> length cs'"
    if "length cs' < length cs" "lex_string cs' = Some (s', rest')" for cs' s' rest'
    using less.hyps that by blast
  from less.prems show ?case
    by (cases cs)
      (auto simp: cons_char_Some le_SucI split: if_splits list.splits option.splits dest!: IH [rotated])
qed

lemma lex_fraction_length: "lex_fraction s = Some (fp, rest) \<Longrightarrow> length rest \<le> length s"
  by (auto simp: lex_fraction_def length_dropWhile_le le_SucI split: list.splits if_splits)

lemma lex_exponent_length: "lex_exponent s = Some (ex, rest) \<Longrightarrow> length rest \<le> length s"
  by (auto simp: lex_exponent_def lex_exp_sign_def length_dropWhile_le le_SucI
      split: list.splits if_splits prod.splits)

lemma dropWhile_shorter: "takeWhile P xs \<noteq> [] \<Longrightarrow> length (dropWhile P xs) < length xs"
  by (induction xs) (auto simp: less_Suc_eq_le length_dropWhile_le split: if_splits)

lemma lex_number_length:
  assumes "lex_number s = Some (v, rest)"
  shows "length rest < length s"
proof -
  obtain neg s1 where sg: "lex_sign s = (neg, s1)" by (cases "lex_sign s")
  then have s1: "length s1 \<le> length s"
    by (auto simp: lex_sign_def split: list.splits if_splits)
  from assms sg obtain fp s3 ex where
    ip: "takeWhile is_digit s1 \<noteq> []" and
    fr: "lex_fraction (dropWhile is_digit s1) = Some (fp, s3)" and
    ex: "lex_exponent s3 = Some (ex, rest)"
    by (auto simp: lex_number_def Let_def split: option.splits if_splits)
  from dropWhile_shorter [OF ip] lex_fraction_length [OF fr] lex_exponent_length [OF ex] s1
  show ?thesis by linarith
qed

function lex :: "string \<Rightarrow> token list option" where
  "lex [] = Some []"
| "lex (c # cs) =
     (if json_ws c then lex cs
      else if c = CHR ''{'' then cons_token TLBrace (lex cs)
      else if c = CHR ''}'' then cons_token TRBrace (lex cs)
      else if c = CHR ''['' then cons_token TLBracket (lex cs)
      else if c = CHR '']'' then cons_token TRBracket (lex cs)
      else if c = CHR '':'' then cons_token TColon (lex cs)
      else if c = CHR '','' then cons_token TComma (lex cs)
      else if c = CHR 0x22 then
        (case lex_string cs of
           None \<Rightarrow> None
         | Some (s, rest) \<Rightarrow> cons_token (TLit (JStr s)) (lex rest))
      else if c = CHR ''-'' \<or> is_digit c then
        (case lex_number (c # cs) of
           None \<Rightarrow> None
         | Some (v, rest) \<Rightarrow> cons_token (TLit v) (lex rest))
      else if startsWith (c # cs) ''true'' then cons_token (TLit (JBool True)) (lex (drop 3 cs))
      else if startsWith (c # cs) ''false'' then cons_token (TLit (JBool False)) (lex (drop 4 cs))
      else if startsWith (c # cs) ''null'' then cons_token (TLit JNull) (lex (drop 3 cs))
      else None)"
  by pat_completeness auto
termination
proof (relation "measure length", goal_cases)
  case (9 c cs x2 x y)
  then have "lex_string cs = Some (x, y)" by simp
  from lex_string_length [OF this] show ?case by simp
next
  case (10 c cs x2 x y)
  then have "lex_number (c # cs) = Some (x, y)" by simp
  from lex_number_length [OF this] show ?case by simp
qed simp_all

text \<open>
  The recogniser's stack holds the containers that are open: an array with the elements
  read so far, an object with the members read so far, or an object whose next member's
  key has been read. A member with a key that is there already replaces its value.
\<close>

fun set_member :: "string \<Rightarrow> jsval \<Rightarrow> (string \<times> jsval) list \<Rightarrow> (string \<times> jsval) list" where
  "set_member k v [] = [(k, v)]"
| "set_member k v ((k', v') # ms) = (if k' = k then (k, v) # ms else (k', v') # set_member k v ms)"

datatype frame =
    ArrayFrame "jsval list"
  | ObjectFrame "(string \<times> jsval) list"
  | MemberFrame "(string \<times> jsval) list" string

datatype expect =
    WantValue | WantValueOrClose | WantKey | WantKeyOrClose | WantColon string
  | WantCommaOrClose | Finished jsval

fun complete :: "jsval \<Rightarrow> frame list \<Rightarrow> (frame list \<times> expect) option" where
  "complete v [] = Some ([], Finished v)"
| "complete v (ArrayFrame xs # st) = Some (ArrayFrame (xs @ [v]) # st, WantCommaOrClose)"
| "complete v (MemberFrame ms k # st) = Some (ObjectFrame (set_member k v ms) # st, WantCommaOrClose)"
| "complete v (ObjectFrame ms # st) = None"

fun step :: "frame list \<Rightarrow> expect \<Rightarrow> token \<Rightarrow> (frame list \<times> expect) option" where
  "step st WantValue (TLit v) = complete v st"
| "step st WantValue TLBracket = Some (ArrayFrame [] # st, WantValueOrClose)"
| "step st WantValue TLBrace = Some (ObjectFrame [] # st, WantKeyOrClose)"
| "step st WantValueOrClose (TLit v) = complete v st"
| "step st WantValueOrClose TLBracket = Some (ArrayFrame [] # st, WantValueOrClose)"
| "step st WantValueOrClose TLBrace = Some (ObjectFrame [] # st, WantKeyOrClose)"
| "step (ArrayFrame xs # st) WantValueOrClose TRBracket = complete (JArr xs) st"
| "step st WantKeyOrClose (TLit (JStr k)) = Some (st, WantColon k)"
| "step (ObjectFrame ms # st) WantKeyOrClose TRBrace = complete (JObj ms) st"
| "step st WantKey (TLit (JStr k)) = Some (st, WantColon k)"
| "step (ObjectFrame ms # st) (WantColon k) TColon = Some (MemberFrame ms k # st, WantValue)"
| "step (ArrayFrame xs # st) WantCommaOrClose TComma = Some (ArrayFrame xs # st, WantValue)"
| "step (ArrayFrame xs # st) WantCommaOrClose TRBracket = complete (JArr xs) st"
| "step (ObjectFrame ms # st) WantCommaOrClose TComma = Some (ObjectFrame ms # st, WantKey)"
| "step (ObjectFrame ms # st) WantCommaOrClose TRBrace = complete (JObj ms) st"
| "step st ex t = None"

fun parse_tokens :: "frame list \<Rightarrow> expect \<Rightarrow> token list \<Rightarrow> jsval option" where
  "parse_tokens st ex [] = (case ex of Finished v \<Rightarrow> Some v | _ \<Rightarrow> None)"
| "parse_tokens st ex (t # ts) =
     (case step st ex t of None \<Rightarrow> None | Some (st', ex') \<Rightarrow> parse_tokens st' ex' ts)"

definition JSON_parse :: "string \<Rightarrow> js_exn + jsval" where
  "JSON_parse text =
     (case lex text of
        None \<Rightarrow> Inl (Engine SyntaxError)
      | Some ts \<Rightarrow>
          (case parse_tokens [] WantValue ts of
             None \<Rightarrow> Inl (Engine SyntaxError)
           | Some v \<Rightarrow> Inr v))"

section \<open>Base64\<close>

text \<open>
  \<^verbatim>\<open>String.fromCharCode(...codes)\<close>: one code unit per argument, here the value of
  each byte.
\<close>

definition String_fromCharCode :: "byte list \<Rightarrow> string" where
  "String_fromCharCode codes = map (\<lambda>b. char_of (unat b)) codes"

text \<open>
  \<^verbatim>\<open>uint8Array.subarray(b, e)\<close>: the elements from index \<open>b\<close> up to, not including,
  index \<open>e\<close>; both ends are clamped to the length of the array.
\<close>

definition subarray :: "byte list \<Rightarrow> nat \<Rightarrow> nat \<Rightarrow> byte list" where
  "subarray a b e = take (e - b) (drop b a)"

definition chunkSize :: nat where
  "chunkSize = 8192"

text \<open>
  The loop
  \<^verbatim>\<open>for (let i = 0; i < uint8Array.length; i += chunkSize) {
     const chunk = uint8Array.subarray(i, i + chunkSize);
     binaryString += String.fromCharCode(...chunk); }\<close>
  with the loop variable and the accumulated string as arguments.
\<close>

function chunk_loop :: "byte list \<Rightarrow> nat \<Rightarrow> string \<Rightarrow> string" where
  "chunk_loop uint8Array i binaryString =
     (if i < length uint8Array
      then chunk_loop uint8Array (i + chunkSize)
             (binaryString @ String_fromCharCode (subarray uint8Array i (i + chunkSize)))
      else binaryString)"
  by pat_completeness auto
termination
  by (relation "measure (\<lambda>(a, i, s). length a - i)") (auto simp: chunkSize_def)

declare chunk_loop.simps [simp del]

text \<open>
  \<^verbatim>\<open>btoa\<close> is the runtime's base64 encoder (RFC 4648, with padding): three code units
  give four digits of the alphabet; a last group of one or two code units is padded with
  \<^verbatim>\<open>=\<close>. Every code unit of a \<^typ>\<open>string\<close> is below 256, so the encoder's
  \<^verbatim>\<open>InvalidCharacterError\<close> cannot arise.
\<close>

definition b64_alphabet :: string where
  "b64_alphabet = ''ABCDEFGHIJKLMNOPQRSTUVWXYZabcdefghijklmnopqrstuvwxyz0123456789+/''"

definition b64_digit :: "nat \<Rightarrow> char" where
  "b64_digit n = b64_alphabet ! n"

fun b64_groups :: "nat list \<Rightarrow> string" where
  "b64_groups (a # b # c # rest) =
     [b64_digit (a div 4), b64_digit ((a mod 4) * 16 + b div 16),
      b64_digit ((b mod 16) * 4 + c div 64), b64_digit (c mod 64)] @ b64_groups rest"
| "b64_groups [a, b] =
     [b64_digit (a div 4), b64_digit ((a mod 4) * 16 + b div 16),
      b64_digit ((b mod 16) * 4), CHR ''='']"
| "b64_groups [a] =
     [b64_digit (a div 4), b64_digit ((a mod 4) * 16), CHR ''='', CHR ''='']"
| "b64_groups [] = []"

definition btoa :: "string \<Rightarrow> string" where
  "btoa s = b64_groups (map of_char s)"

text \<open>
  The handler's encoding step: the loop started at index 0 with the empty string, then
  \<^verbatim>\<open>btoa(binaryString)\<close>.
\<close>

definition chunked_base64 :: "byte list \<Rightarrow> string" where
  "chunked_base64 uint8Array = btoa (chunk_loop uint8Array 0 [])"

text \<open>
  The encoding the specification compares with: all bytes turned into one binary string at
  once, then base64-encoded.
\<close>

definition whole_base64 :: "byte list \<Rightarrow> string" where
  "whole_base64 uint8Array = btoa (String_fromCharCode uint8Array)"

text \<open>
  \<^verbatim>\<open>atob\<close> is the runtime's decoder (the forgiving-base64 decode of the Infra
  standard): ASCII white space is dropped; with a length divisible by 4, one or two
  \<^verbatim>\<open>=\<close> at the end are dropped; a length of 1 modulo 4, or a code unit outside the
  alphabet, is an \<^verbatim>\<open>InvalidCharacterError\<close>; every four digits give three code units,
  and the bits left over at the end are discarded.
\<close>

definition b64_value :: "char \<Rightarrow> nat option" where
  "b64_value c =
     (let n = (of_char c :: nat)
      in if 65 \<le> n \<and> n \<le> 90 then Some (n - 65)
         else if 97 \<le> n \<and> n \<le> 122 then Some (n - 71)
         else if 48 \<le> n \<and> n \<le> 57 then Some (n + 4)
         else if c = CHR ''+'' then Some 62
         else if c = CHR ''/'' then Some 63
         else None)"

definition ascii_space :: "char \<Rightarrow> bool" where
  "ascii_space c =
     (c = CHR 0x09 \<or> c = CHR 0x0A \<or> c = CHR 0x0C \<or> c = CHR 0x0D \<or> c = CHR 0x20)"

definition strip_padding :: "string \<Rightarrow> string" where
  "strip_padding s =
     (if length s mod 4 = 0 \<and> endsWith s ''=='' then take (length s - 2) s
      else if length s mod 4 = 0 \<and> endsWith s ''='' then take (length s - 1) s
      else s)"

fun atob_groups :: "nat list \<Rightarrow> nat list" where
  "atob_groups (a # b # c # d # rest) =
     [a * 4 + b div 16, (b mod 16) * 16 + c div 4, (c mod 4) * 64 + d] @ atob_groups rest"
| "atob_groups [a, b, c] = [a * 4 + b div 16, (b mod 16) * 16 + c div 4]"
| "atob_groups [a, b] = [a * 4 + b div 16]"
| "atob_groups ds = []"

definition atob :: "string \<Rightarrow> js_exn + string" where
  "atob s =
     (let digits = strip_padding (filter (\<lambda>c. \<not> ascii_space c) s)
      in if length digits mod 4 = 1 \<or> None \<in> set (map b64_value digits)
         then Inl (Engine InvalidCharacterError)
         else Inr (map char_of (atob_groups (map (\<lambda>c. case b64_value c of Some v \<Rightarrow> v | None \<Rightarrow> 0) digits))))"

section \<open>The extract-questions edge function\<close>

subsection \<open>The world outside the handler\<close>

text \<open>
  What the handler gets from outside in one invocation: the request, the environment and
  the outcome of each outbound call. A call is made at most once per invocation, so its
  outcome is a field: \<open>Inl\<close> is a rejected promise (an exception), \<open>Inr\<close> the value. An
  upstream HTTP response is its status and its body text.
\<close>

record fetched =
  fetched_status :: nat
  fetched_text :: string

text \<open>\<^verbatim>\<open>response.ok\<close>: a status from 200 to 299.\<close>

definition ok :: "fetched \<Rightarrow> bool" where
  "ok r = (200 \<le> fetched_status r \<and> fetched_status r \<le> 299)"

text \<open>\<^verbatim>\<open>{ data, error }\<close> of a storage download: an error, or the file's bytes.\<close>

datatype download_result = DownloadError | DownloadData "byte list"

record world =
  req_method :: string
  req_json :: "js_exn + jsval"
  env_LOVABLE_API_KEY :: "string option"
  env_OCR_API_KEY :: "string option"
  createClient :: "js_exn + unit"
  storage_download :: "js_exn + download_result"
  filestack_store :: "js_exn + fetched"
  filestack_output :: "js_exn + fetched"
  gemini_ocr :: "js_exn + fetched"
  gemini_parse :: "js_exn + fetched"
  Number_toString :: "int \<Rightarrow> int \<Rightarrow> string"
  engine_message :: "engine_error \<Rightarrow> string"

text \<open>An environment variable is configured when it is set to a non-empty string.\<close>

definition env_set :: "string option \<Rightarrow> bool" where
  "env_set v = (case v of None \<Rightarrow> False | Some s \<Rightarrow> s \<noteq> [])"

definition env_value :: "string option \<Rightarrow> string" where
  "env_value v = (case v of None \<Rightarrow> [] | Some s \<Rightarrow> s)"

text \<open>The outbound calls, in the order they are made, with what is sent.\<close>

datatype event =
    StorageDownload jsval
  | FilestackStore string "byte list"
  | FilestackOutput string jsval
  | GeminiOcr string string string
  | GeminiParse string jsval

subsection \<open>Responses\<close>

text \<open>
  A \<^verbatim>\<open>Response\<close>: status, headers, and the value whose \<^verbatim>\<open>JSON.stringify\<close> is the body
  (\<open>None\<close> for the \<^verbatim>\<open>null\<close> body).
\<close>

record response =
  status :: nat
  headers :: "(string \<times> string) list"
  body :: "jsval option"

definition corsHeaders :: "(string \<times> string) list" where
  "corsHeaders =
     [(''Access-Control-Allow-Origin'', ''*''),
      (''Access-Control-Allow-Headers'', ''authorization, x-client-info, apikey, content-type'')]"

definition json_response :: "nat \<Rightarrow> jsval \<Rightarrow> response" where
  "json_response st v =
     \<lparr>status = st, headers = corsHeaders @ [(''Content-Type'', ''application/json'')],
      body = Some v\<rparr>"

definition error_response :: "nat \<Rightarrow> string \<Rightarrow> response" where
  "error_response st msg = json_response st (JObj [(''error'', JStr msg)])"

definition questions_response :: "jsval \<Rightarrow> response" where
  "questions_response questions = json_response 200 (JObj [(''questions'', questions)])"

subsection \<open>Statements with effects\<close>

text \<open>
  A statement of the handler ends normally with a value, returns a response from the
  handler, or throws; and it makes outbound calls on the way.
\<close>

datatype 'a outcome = Normal 'a | Return response | Throw js_exn

type_synonym 'a eff = "'a outcome \<times> event list"

definition succeed :: "'a \<Rightarrow> 'a eff" where
  "succeed x = (Normal x, [])"

definition returnResponse :: "response \<Rightarrow> 'a eff" where
  "returnResponse r = (Return r, [])"

definition throw :: "js_exn \<Rightarrow> 'a eff" where
  "throw e = (Throw e, [])"

definition attempt :: "js_exn + 'a \<Rightarrow> 'a eff" where
  "attempt r = (case r of Inl e \<Rightarrow> (Throw e, []) | Inr x \<Rightarrow> (Normal x, []))"

definition call :: "event \<Rightarrow> js_exn + 'a \<Rightarrow> 'a eff" where
  "call ev r = (case r of Inl e \<Rightarrow> (Throw e, [ev]) | Inr x \<Rightarrow> (Normal x, [ev]))"

definition andThen :: "'a eff \<Rightarrow> ('a \<Rightarrow> 'b eff) \<Rightarrow> 'b eff" where
  "andThen m f =
     (case m of
        (Normal x, t) \<Rightarrow> (case f x of (r, t') \<Rightarrow> (r, t @ t'))
      | (Return r, t) \<Rightarrow> (Return r, t)
      | (Throw e, t) \<Rightarrow> (Throw e, t))"

definition tryCatch :: "'a eff \<Rightarrow> (js_exn \<Rightarrow> 'a eff) \<Rightarrow> 'a eff" where
  "tryCatch m h =
     (case m of
        (Throw e, t) \<Rightarrow> (case h e of (r, t') \<Rightarrow> (r, t @ t'))
      | (Normal x, t) \<Rightarrow> (Normal x, t)
      | (Return r, t) \<Rightarrow> (Return r, t))"

subsection \<open>extractWithGemini\<close>

definition extractWithGemini :: "world \<Rightarrow> string \<Rightarrow> string \<Rightarrow> string \<Rightarrow> jsval eff" where
  "extractWithGemini w base64 mimeType lovableApiKey =
     andThen (call (GeminiOcr lovableApiKey mimeType base64) (gemini_ocr w)) (\<lambda>ocrResponse.
     andThen (if \<not> ok ocrResponse
              then throw (Error (''Gemini OCR failed: '' @ fetched_text ocrResponse))
              else succeed ()) (\<lambda>_.
     andThen (attempt (JSON_parse (fetched_text ocrResponse))) (\<lambda>ocrData.
     attempt (choices_content ocrData))))"

subsection \<open>processPdfWithFilestack\<close>

text \<open>\<^verbatim>\<open>bytes[i] = binaryString.charCodeAt(i)\<close>, for every index.\<close>

definition bytes_of :: "string \<Rightarrow> byte list" where
  "bytes_of binaryString = map (\<lambda>c. of_nat (of_char c)) binaryString"

text \<open>\<^verbatim>\<open>ocrData.map((item) => item.text || '')\<close>.\<close>

fun item_texts :: "jsval list \<Rightarrow> js_exn + jsval list" where
  "item_texts [] = Inr []"
| "item_texts (item # items) =
     sum_bind (get_prop item ''text'') (\<lambda>text.
     sum_bind (item_texts items) (\<lambda>texts.
     Inr ((if truthy text then text else JStr []) # texts)))"

text \<open>
  The text taken from the OCR response: \<^verbatim>\<open>ocrData.text\<close>, else
  \<^verbatim>\<open>ocrData.ocr.text\<close>, else the \<^verbatim>\<open>text\<close> of the items of an array joined by blank
  lines, else the empty string.
\<close>

definition filestack_text :: "world \<Rightarrow> jsval \<Rightarrow> js_exn + jsval" where
  "filestack_text w ocrData =
     sum_bind (get_prop ocrData ''text'') (\<lambda>text.
       if truthy text then Inr text
       else
     sum_bind (get_prop ocrData ''ocr'') (\<lambda>ocr.
     sum_bind (if truthy ocr then get_prop ocr ''text'' else Inr ocr) (\<lambda>ocr_text.
       if truthy ocr_text then Inr ocr_text
       else if isArray ocrData then
         (case ocrData of
            JArr items \<Rightarrow>
              sum_bind (item_texts items) (\<lambda>texts.
              Inr (JStr (join [CHR 0x0A, CHR 0x0A] (map (to_string (Number_toString w)) texts))))
          | _ \<Rightarrow> Inr (JStr []))
       else Inr (JStr []))))"

definition processPdfWithFilestack :: "world \<Rightarrow> string \<Rightarrow> string \<Rightarrow> jsval eff" where
  "processPdfWithFilestack w base64Data ocrApiKey =
     andThen (attempt (atob base64Data)) (\<lambda>binaryString.
     andThen (call (FilestackStore ocrApiKey (bytes_of binaryString)) (filestack_store w)) (\<lambda>uploadResponse.
     andThen (if \<not> ok uploadResponse
              then throw (Error ''Failed to upload PDF to Filestack'')
              else succeed ()) (\<lambda>_.
     andThen (attempt (JSON_parse (fetched_text uploadResponse))) (\<lambda>uploadData.
     andThen (attempt (get_prop uploadData ''handle'')) (\<lambda>fileHandle.
     andThen (call (FilestackOutput ocrApiKey fileHandle) (filestack_output w)) (\<lambda>ocrResponse.
     andThen (if \<not> ok ocrResponse
              then throw (Error ''Filestack OCR processing failed'')
              else succeed ()) (\<lambda>_.
     andThen (attempt (JSON_parse (fetched_text ocrResponse))) (\<lambda>ocrData.
     attempt (filestack_text w ocrData)))))))))"

subsection \<open>The handler\<close>

text \<open>
  The OCR step of the handler (index.ts, lines 174-190): \<^verbatim>\<open>isPdf\<close> and the
  \<^verbatim>\<open>if (isPdf && ocrApiKey) { try ... catch ... } else ...\<close> that sets
  \<^verbatim>\<open>extractedText\<close>.
\<close>

definition ocr_step :: "world \<Rightarrow> string \<Rightarrow> string \<Rightarrow> string \<Rightarrow> string \<Rightarrow> jsval eff" where
  "ocr_step w filePath base64 mimeType lovableApiKey =
     (let ocrApiKey = env_OCR_API_KEY w;
          isPdf = endsWith (toLowerCase filePath) ''.pdf''
      in if isPdf \<and> env_set ocrApiKey
         then tryCatch (processPdfWithFilestack w base64 (env_value ocrApiKey))
                (\<lambda>error. if isPdf then extractWithGemini w base64 mimeType lovableApiKey
                         else succeed (JStr []))
         else extractWithGemini w base64 mimeType lovableApiKey)"

text \<open>
  The body of the inner \<^verbatim>\<open>try\<close> (lines 262-265): \<^verbatim>\<open>questionsText.replace\<close> is a
  \<^verbatim>\<open>TypeError\<close> unless \<^verbatim>\<open>questionsText\<close> is a string.
\<close>

definition parse_questions :: "jsval \<Rightarrow> js_exn + jsval" where
  "parse_questions questionsText =
     (case questionsText of
        JStr t \<Rightarrow> JSON_parse (cleanedText t)
      | _ \<Rightarrow> Inl (Engine TypeError))"

text \<open>The response to an upstream status that is not \<^verbatim>\<open>ok\<close> (lines 232-254).\<close>

definition ai_error_response :: "fetched \<Rightarrow> response" where
  "ai_error_response aiResponse =
     (if fetched_status aiResponse = 429
      then error_response 429 ''Rate limit exceeded. Please try again later.''
      else if fetched_status aiResponse = 402
      then error_response 402 ''AI credits depleted. Please add funds to continue.''
      else error_response 500 ''AI processing failed'')"

text \<open>
  The \<^verbatim>\<open>try\<close> block of the handler, statement by statement, in three parts. First,
  from the request to the encoded document and its MIME type (lines 115-163): the path,
  the base64 text and the MIME type.
\<close>

definition load_document :: "world \<Rightarrow> (string \<times> string \<times> string) eff" where
  "load_document w =
     andThen (attempt (req_json w)) (\<lambda>json.
     andThen (attempt (get_prop json ''filePath'')) (\<lambda>filePath.
     andThen (if \<not> truthy filePath
              then returnResponse (error_response 400 ''File path is required'')
              else succeed ()) (\<lambda>_.
     andThen (attempt (createClient w)) (\<lambda>supabase.
     andThen (call (StorageDownload filePath) (storage_download w)) (\<lambda>download.
     andThen (case download of
                DownloadError \<Rightarrow> returnResponse (error_response 500 ''Failed to download file'')
              | DownloadData uint8Array \<Rightarrow> succeed uint8Array) (\<lambda>uint8Array.
     andThen (succeed (chunked_base64 uint8Array)) (\<lambda>base64.
     andThen (case filePath of JStr path \<Rightarrow> succeed path | _ \<Rightarrow> throw (Engine TypeError)) (\<lambda>path.
     succeed (path, base64, mimeType_of path)))))))))"

text \<open>
  Step 1 (lines 165-192), from the credentials to the log line that reads
  \<^verbatim>\<open>extractedText.length\<close> (a \<^verbatim>\<open>TypeError\<close> on \<^verbatim>\<open>null\<close> and
  \<^verbatim>\<open>undefined\<close>): the key of the language model and the extracted text.
\<close>

definition step1_ocr :: "world \<Rightarrow> string \<Rightarrow> string \<Rightarrow> string \<Rightarrow> (string \<times> jsval) eff" where
  "step1_ocr w path base64 mimeType =
     andThen (if \<not> env_set (env_LOVABLE_API_KEY w)
              then throw (Error ''LOVABLE_API_KEY not configured'')
              else succeed (env_value (env_LOVABLE_API_KEY w))) (\<lambda>lovableApiKey.
     andThen (ocr_step w path base64 mimeType lovableApiKey) (\<lambda>extractedText.
     andThen (attempt (get_length extractedText)) (\<lambda>_.
     succeed (lovableApiKey, extractedText))))"

text \<open>Step 2 (lines 193-286), from the request to the language model to the response.\<close>

definition step2_parse :: "world \<Rightarrow> string \<Rightarrow> jsval \<Rightarrow> response eff" where
  "step2_parse w lovableApiKey extractedText =
     andThen (call (GeminiParse lovableApiKey extractedText) (gemini_parse w)) (\<lambda>aiResponse.
     andThen (if \<not> ok aiResponse
              then returnResponse (ai_error_response aiResponse)
              else succeed ()) (\<lambda>_.
     andThen (attempt (JSON_parse (fetched_text aiResponse))) (\<lambda>aiData.
     andThen (attempt (choices_content aiData)) (\<lambda>questionsText.
     andThen (tryCatch (attempt (parse_questions questionsText))
                (\<lambda>parseError. returnResponse
                   (error_response 500 ''Failed to parse extracted questions''))) (\<lambda>questions.
     andThen (if \<not> isArray questions
              then returnResponse (error_response 500 ''Invalid questions format'')
              else succeed ()) (\<lambda>_.
     returnResponse (questions_response questions)))))))"

definition handler_try :: "world \<Rightarrow> response eff" where
  "handler_try w =
     andThen (load_document w) (\<lambda>(path, base64, mimeType).
     andThen (step1_ocr w path base64 mimeType) (\<lambda>(lovableApiKey, extractedText).
     step2_parse w lovableApiKey extractedText))"

text \<open>\<^verbatim>\<open>error instanceof Error ? error.message : 'Unknown error occurred'\<close>.\<close>

definition error_text :: "world \<Rightarrow> js_exn \<Rightarrow> string" where
  "error_text w error =
     (case error of
        Error message \<Rightarrow> message
      | Engine kind \<Rightarrow> engine_message w kind
      | NonError \<Rightarrow> ''Unknown error occurred'')"

text \<open>
  How the \<^verbatim>\<open>try\<close> block ends: with the response it returns, or in the \<^verbatim>\<open>catch\<close>
  clause with status 500 and the error's message.
\<close>

definition finish :: "world \<Rightarrow> response outcome \<Rightarrow> response" where
  "finish w out =
     (case out of
        Return r \<Rightarrow> r
      | Normal r \<Rightarrow> r
      | Throw error \<Rightarrow> error_response 500 (error_text w error))"

text \<open>
  The handler passed to \<^verbatim>\<open>serve\<close>: the response, and the outbound calls made. A
  preflight request is answered at once.
\<close>

definition serve :: "world \<Rightarrow> response \<times> event list" where
  "serve w =
     (if req_method w = ''OPTIONS'' then (\<lparr>status = 200, headers = corsHeaders, body = None\<rparr>, [])
      else (finish w (fst (handler_try w)), snd (handler_try w)))"

section \<open>The Upload page: processFile\<close>










section \<open>The Exam page: handleSubmit\<close>

record question =
  question :: string
  options :: "string list"
  correctAnswer :: string

record result_item = question +
  userAnswer :: string
  isCorrect :: bool

text \<open>\<^verbatim>\<open>answers[idx] || ''\<close>, for \<^verbatim>\<open>answers: Record<number, string>\<close>.\<close>

definition answer_or_empty :: "(nat \<rightharpoonup> string) \<Rightarrow> nat \<Rightarrow> string" where
  "answer_or_empty answers idx =
     (case answers idx of None \<Rightarrow> [] | Some a \<Rightarrow> if a \<noteq> [] then a else [])"

text \<open>
  \<^verbatim>\<open>questions.map((q, idx) => ...)\<close> with the counter \<^verbatim>\<open>correctCount\<close> that the
  callback increments: the results from index \<open>idx\<close> on, and the counter at the end.
\<close>

fun mark :: "(nat \<rightharpoonup> string) \<Rightarrow> question list \<Rightarrow> nat \<Rightarrow> nat \<Rightarrow> result_item list \<times> nat" where
  "mark answers [] idx correctCount = ([], correctCount)"
| "mark answers (q # qs) idx correctCount =
     (let given = answer_or_empty answers idx;
          correct = (given = correctAnswer q);
          counted = (if correct then correctCount + 1 else correctCount)
      in case mark answers qs (idx + 1) counted of
           (items, final) \<Rightarrow>
             (\<lparr>question = question q, options = options q, correctAnswer = correctAnswer q,
               userAnswer = given, isCorrect = correct\<rparr> # items, final))"

text \<open>The state that \<^verbatim>\<open>handleSubmit\<close> passes to \<^verbatim>\<open>navigate('/results', { state })\<close>.\<close>

record results_state =
  results :: "result_item list"
  score :: nat
  total :: nat

definition handleSubmit :: "question list \<Rightarrow> (nat \<rightharpoonup> string) \<Rightarrow> string \<times> results_state" where
  "handleSubmit questions answers =
     (case mark answers questions 0 0 of
        (items, correctCount) \<Rightarrow>
          (''/results'', \<lparr>results = items, score = correctCount, total = length questions\<rparr>))"

section \<open>Notions the properties are stated with\<close>

text \<open>The kinds of outbound calls.\<close>

fun is_filestack :: "event \<Rightarrow> bool" where
  "is_filestack (FilestackStore k b) = True"
| "is_filestack (FilestackOutput k h) = True"
| "is_filestack e = False"

fun is_gemini_ocr :: "event \<Rightarrow> bool" where
  "is_gemini_ocr (GeminiOcr k m b) = True"
| "is_gemini_ocr e = False"

fun is_gemini_parse :: "event \<Rightarrow> bool" where
  "is_gemini_parse (GeminiParse k x) = True"
| "is_gemini_parse e = False"

text \<open>A statement makes only calls of a kind; it returns only responses of a kind.\<close>

definition emits_only :: "(event \<Rightarrow> bool) \<Rightarrow> 'a eff \<Rightarrow> bool" where
  "emits_only P m = list_all P (snd m)"

definition returns_only :: "(response \<Rightarrow> bool) \<Rightarrow> 'a eff \<Rightarrow> bool" where
  "returns_only Q m = (case fst m of Return r \<Rightarrow> Q r | _ \<Rightarrow> True)"

text \<open>The handler up to Step 2.\<close>

definition before_parse :: "world \<Rightarrow> (string \<times> jsval) eff" where
  "before_parse w =
     andThen (load_document w) (\<lambda>(path, base64, mimeType). step1_ocr w path base64 mimeType)"




text \<open>
  A text contains a code fence; a payload wrapped in \<^verbatim>\<open>```json\<close> and \<^verbatim>\<open>```\<close>
  fences, each on a line of its own.
\<close>

fun contains_fence :: "string \<Rightarrow> bool" where
  "contains_fence [] = False"
| "contains_fence (c # cs) = (startsWith (c # cs) ''```'' \<or> contains_fence cs)"

definition fenced :: "string \<Rightarrow> string" where
  "fenced inner = ''```json'' @ [CHR 0x0A] @ inner @ [CHR 0x0A] @ ''```''"

text \<open>The answer recorded for an index: the empty string when there is none.\<close>

definition recorded :: "(nat \<rightharpoonup> string) \<Rightarrow> nat \<Rightarrow> string" where
  "recorded answers i = (case answers i of None \<Rightarrow> [] | Some a \<Rightarrow> a)"

text \<open>
  The digits of the base64 encoding of a sequence of code units, by their values, and its
  padding.
\<close>

fun sextets :: "nat list \<Rightarrow> nat list" where
  "sextets (a # b # c # rest) =
     [a div 4, (a mod 4) * 16 + b div 16, (b mod 16) * 4 + c div 64, c mod 64] @ sextets rest"
| "sextets [a, b] = [a div 4, (a mod 4) * 16 + b div 16, (b mod 16) * 4]"
| "sextets [a] = [a div 4, (a mod 4) * 16]"
| "sextets [] = []"

fun padding :: "nat list \<Rightarrow> string" where
  "padding (a # b # c # rest) = padding rest"
| "padding [a, b] = ''=''"
| "padding [a] = ''==''"
| "padding [] = []"

text \<open>
  A provider's chat-completion reply with a given content, as the concrete worlds below
  use it: status 200 and the JSON text
  \<^verbatim>\<open>{"choices":[{"message":{"content":"..."}}]}\<close>, quotes and backslashes of the
  content escaped.
\<close>

definition quote_json :: "string \<Rightarrow> string" where
  "quote_json s =
     [CHR 0x22]
     @ concat (map (\<lambda>c. if c = CHR 0x22 \<or> c = CHR 0x5C then [CHR 0x5C, c] else [c]) s)
     @ [CHR 0x22]"

definition chat_reply :: "string \<Rightarrow> fetched" where
  "chat_reply content =
     \<lparr>fetched_status = 200,
      fetched_text = ''{\"choices\":[{\"message\":{\"content\":'' @ quote_json content @ ''}}]}''\<rparr>"

text \<open>
  A world for the scenario of the specification: the key \<^verbatim>\<open>123.png\<close>, three bytes of
  image data, no OCR credential, and the two replies of the language model.
\<close>

definition example_world :: "string \<Rightarrow> world" where
  "example_world questionsText =
     \<lparr>req_method = ''POST'',
      req_json = Inr (JObj [(''filePath'', JStr ''123.png'')]),
      env_LOVABLE_API_KEY = Some ''key'',
      env_OCR_API_KEY = None,
      createClient = Inr (),
      storage_download = Inr (DownloadData [77, 97, 110]),
      filestack_store = Inl (Error ''unused''),
      filestack_output = Inl (Error ''unused''),
      gemini_ocr = Inr (chat_reply ''1. What is 2+2? A) 3 B) 4 C) 5 D) 6 Answer: B''),
      gemini_parse = Inr (chat_reply questionsText),
      Number_toString = (\<lambda>m e. ''0''),
      engine_message = (\<lambda>kind. ''engine error'')\<rparr>"

section \<open>Lemmas on statements with effects\<close>

lemma andThen_Normal [simp]: "andThen (Normal x, t) f = (fst (f x), t @ snd (f x))"
  by (simp add: andThen_def split: prod.splits)

lemma andThen_Return [simp]: "andThen (Return r, t) f = (Return r, t)"
  by (simp add: andThen_def)

lemma andThen_Throw [simp]: "andThen (Throw e, t) f = (Throw e, t)"
  by (simp add: andThen_def)

lemma andThen_succeed [simp]: "andThen (succeed x) f = f x"
  by (simp add: succeed_def)

lemma andThen_returnResponse [simp]: "andThen (returnResponse r) f = returnResponse r"
  by (simp add: returnResponse_def)

lemma andThen_throw [simp]: "andThen (throw e) f = throw e"
  by (simp add: throw_def)

lemma attempt_simps [simp]:
  "attempt (Inr x) = succeed x" "attempt (Inl e) = throw e"
  by (simp_all add: attempt_def succeed_def throw_def)

lemma call_simps [simp]:
  "call ev (Inr x) = (Normal x, [ev])" "call ev (Inl e) = (Throw e, [ev])"
  by (simp_all add: call_def)

lemma andThen_assoc: "andThen (andThen m f) g = andThen m (\<lambda>x. andThen (f x) g)"
proof -
  obtain r t where mt: "m = (r, t)" by (cases m)
  show ?thesis
  proof (cases r)
    case (Normal x)
    obtain r' t' where fx: "f x = (r', t')" by (cases "f x")
    show ?thesis
      by (cases r') (simp_all add: mt Normal fx)
  qed (simp_all add: mt)
qed

section \<open>Which calls and which responses a statement can make\<close>

lemma emits_only_basic [simp]:
  "emits_only P (succeed x)" "emits_only P (throw e)" "emits_only P (returnResponse r)"
  "emits_only P (attempt a)"
  by (simp_all add: emits_only_def succeed_def throw_def returnResponse_def attempt_def
      split: sum.splits)

lemma emits_only_call [simp]: "emits_only P (call ev a) \<longleftrightarrow> P ev"
  by (simp add: emits_only_def call_def split: sum.splits)

lemma emits_only_andThen:
  "emits_only P m \<Longrightarrow> (\<And>x. emits_only P (f x)) \<Longrightarrow> emits_only P (andThen m f)"
proof -
  assume m: "emits_only P m" and f: "\<And>x. emits_only P (f x)"
  obtain r t where mt: "m = (r, t)" by (cases m)
  show ?thesis
  proof (cases r)
    case (Normal x)
    with m mt f [of x] show ?thesis by (simp add: emits_only_def)
  qed (use m mt in \<open>simp_all add: emits_only_def\<close>)
qed

lemma emits_only_tryCatch:
  "emits_only P m \<Longrightarrow> (\<And>e. emits_only P (h e)) \<Longrightarrow> emits_only P (tryCatch m h)"
proof -
  assume m: "emits_only P m" and h: "\<And>e. emits_only P (h e)"
  obtain r t where mt: "m = (r, t)" by (cases m)
  show ?thesis
  proof (cases r)
    case (Throw e)
    with m mt h [of e] show ?thesis
      by (cases "h e") (simp add: emits_only_def tryCatch_def)
  qed (use m mt in \<open>simp_all add: emits_only_def tryCatch_def\<close>)
qed

lemma emits_only_weaken: "emits_only P m \<Longrightarrow> (\<And>e. P e \<Longrightarrow> Q e) \<Longrightarrow> emits_only Q m"
  by (auto simp: emits_only_def list_all_iff)

lemma emits_only_if:
  "(c \<Longrightarrow> emits_only P a) \<Longrightarrow> (\<not> c \<Longrightarrow> emits_only P b) \<Longrightarrow> emits_only P (if c then a else b)"
  by simp

lemma emits_extractWithGemini: "emits_only is_gemini_ocr (extractWithGemini w b m k)"
  unfolding extractWithGemini_def
  by (intro emits_only_andThen emits_only_if) simp_all

lemma emits_processPdfWithFilestack: "emits_only is_filestack (processPdfWithFilestack w b k)"
  unfolding processPdfWithFilestack_def
  by (intro emits_only_andThen emits_only_if) simp_all

lemma emits_ocr_step:
  "emits_only (\<lambda>e. is_filestack e \<or> is_gemini_ocr e) (ocr_step w p b m k)"
  unfolding ocr_step_def Let_def
  by (intro emits_only_if emits_only_tryCatch
      emits_only_weaken [OF emits_extractWithGemini] emits_only_weaken [OF emits_processPdfWithFilestack])
    simp_all

lemma ocr_event_not_parse:
  "is_filestack e \<or> is_gemini_ocr e \<Longrightarrow> \<not> is_gemini_parse e"
  by (cases e) auto

lemma emits_step1_ocr:
  "emits_only (\<lambda>e. \<not> is_gemini_parse e) (step1_ocr w p b m)"
  unfolding step1_ocr_def
  by (intro emits_only_andThen emits_only_if emits_only_weaken [OF emits_ocr_step])
    (use ocr_event_not_parse in auto)

lemma emits_load_document:
  "emits_only (\<lambda>e. \<not> is_gemini_parse e) (load_document w)"
  unfolding load_document_def
  by (intro emits_only_andThen emits_only_if) (simp_all split: download_result.splits jsval.splits)

lemma returns_only_basic [simp]:
  "returns_only Q (succeed x)" "returns_only Q (throw e)" "returns_only Q (attempt a)"
  "returns_only Q (call ev a)" "returns_only Q (returnResponse r) \<longleftrightarrow> Q r"
  by (simp_all add: returns_only_def succeed_def throw_def returnResponse_def attempt_def call_def
      split: sum.splits)

lemma returns_only_andThen:
  "returns_only Q m \<Longrightarrow> (\<And>x. returns_only Q (f x)) \<Longrightarrow> returns_only Q (andThen m f)"
proof -
  assume m: "returns_only Q m" and f: "\<And>x. returns_only Q (f x)"
  obtain r t where mt: "m = (r, t)" by (cases m)
  show ?thesis
  proof (cases r)
    case (Normal x)
    with m mt f [of x] show ?thesis by (simp add: returns_only_def)
  qed (use m mt in \<open>simp_all add: returns_only_def\<close>)
qed

lemma returns_only_tryCatch:
  "returns_only Q m \<Longrightarrow> (\<And>e. returns_only Q (h e)) \<Longrightarrow> returns_only Q (tryCatch m h)"
proof -
  assume m: "returns_only Q m" and h: "\<And>e. returns_only Q (h e)"
  obtain r t where mt: "m = (r, t)" by (cases m)
  show ?thesis
  proof (cases r)
    case (Throw e)
    with m mt h [of e] show ?thesis
      by (cases "h e") (simp add: returns_only_def tryCatch_def)
  qed (use m mt in \<open>simp_all add: returns_only_def tryCatch_def\<close>)
qed

lemma returns_only_if:
  "(c \<Longrightarrow> returns_only Q a) \<Longrightarrow> (\<not> c \<Longrightarrow> returns_only Q b) \<Longrightarrow> returns_only Q (if c then a else b)"
  by simp


lemma status_error_response [simp]: "status (error_response st msg) = st"
  by (simp add: error_response_def json_response_def)

lemma status_questions_response [simp]: "status (questions_response qs) = 200"
  by (simp add: questions_response_def json_response_def)

lemma returns_extractWithGemini: "returns_only (\<lambda>r. False) (extractWithGemini w b m k)"
  unfolding extractWithGemini_def
  by (intro returns_only_andThen returns_only_if) simp_all

lemma returns_processPdfWithFilestack: "returns_only (\<lambda>r. False) (processPdfWithFilestack w b k)"
  unfolding processPdfWithFilestack_def
  by (intro returns_only_andThen returns_only_if) simp_all

lemma returns_ocr_step: "returns_only (\<lambda>r. False) (ocr_step w p b m k)"
  unfolding ocr_step_def Let_def
  by (intro returns_only_if returns_only_tryCatch returns_extractWithGemini
      returns_processPdfWithFilestack) simp_all




section \<open>Reaching Step 2\<close>

lemma handler_try_before_parse:
  "handler_try w = andThen (before_parse w) (\<lambda>(k, x). step2_parse w k x)"
  by (simp add: handler_try_def before_parse_def andThen_assoc split_def)

lemma emits_before_parse: "emits_only (\<lambda>e. \<not> is_gemini_parse e) (before_parse w)"
  unfolding before_parse_def split_def
  by (intro emits_only_andThen emits_load_document emits_step1_ocr)

lemma emits_nothing: "emits_only (\<lambda>e. False) m \<Longrightarrow> snd m = []"
  by (cases "snd m") (simp_all add: emits_only_def)

lemma snd_step2_parse: "snd (step2_parse w k x) = [GeminiParse k x]"
proof (cases "gemini_parse w")
  case (Inl e)
  then show ?thesis by (simp add: step2_parse_def)
next
  case (Inr aiResponse)
  have "emits_only (\<lambda>e. False)
     (andThen (if \<not> ok aiResponse
              then returnResponse (ai_error_response aiResponse)
              else succeed ()) (\<lambda>_.
     andThen (attempt (JSON_parse (fetched_text aiResponse))) (\<lambda>aiData.
     andThen (attempt (choices_content aiData)) (\<lambda>questionsText.
     andThen (tryCatch (attempt (parse_questions questionsText))
                (\<lambda>parseError. returnResponse
                   (error_response 500 ''Failed to parse extracted questions''))) (\<lambda>questions.
     andThen (if \<not> isArray questions
              then returnResponse (error_response 500 ''Invalid questions format'')
              else succeed ()) (\<lambda>_.
     returnResponse (questions_response questions)))))))"
    by (intro emits_only_andThen emits_only_if emits_only_tryCatch) simp_all
  from emits_nothing [OF this] Inr show ?thesis
    by (simp add: step2_parse_def)
qed

lemma parse_call_reached:
  assumes "GeminiParse k x \<in> set (snd (handler_try w))"
  shows "\<exists>t. before_parse w = (Normal (k, x), t)
            \<and> handler_try w = (fst (step2_parse w k x), t @ [GeminiParse k x])"
proof -
  obtain r t where bp: "before_parse w = (r, t)" by (cases "before_parse w")
  from emits_before_parse [of w] bp have none: "GeminiParse k x \<notin> set t"
    by (auto simp: emits_only_def list_all_iff)
  show ?thesis
  proof (cases r)
    case (Normal kx)
    obtain k' x' where kx: "kx = (k', x')" by (cases kx)
    from assms none have "k' = k \<and> x' = x"
      by (simp add: handler_try_before_parse bp Normal kx snd_step2_parse)
    then show ?thesis
      by (simp add: handler_try_before_parse bp Normal kx snd_step2_parse)
  next
    case (Return resp)
    with assms none show ?thesis by (simp add: handler_try_before_parse bp)
  next
    case (Throw e)
    with assms none show ?thesis by (simp add: handler_try_before_parse bp)
  qed
qed

lemma serve_finish:
  "req_method w \<noteq> ''OPTIONS'' \<Longrightarrow> serve w = (finish w (fst (handler_try w)), snd (handler_try w))"
  by (simp add: serve_def)

lemma serve_after_parse_call:
  assumes "GeminiParse k x \<in> set (snd (serve w))"
  shows "fst (serve w) = finish w (fst (step2_parse w k x))"
proof -
  from assms have m: "req_method w \<noteq> ''OPTIONS''"
    by (auto simp: serve_def)
  with assms have "GeminiParse k x \<in> set (snd (handler_try w))"
    by (simp add: serve_finish)
  from parse_call_reached [OF this] m show ?thesis
    by (auto simp: serve_finish)
qed


lemma step2_not_ok:
  "gemini_parse w = Inr r \<Longrightarrow> \<not> ok r \<Longrightarrow> fst (step2_parse w k x) = Return (ai_error_response r)"
  by (simp add: step2_parse_def returnResponse_def)


section \<open>The encoder\<close>

lemma String_fromCharCode_append:
  "String_fromCharCode (xs @ ys) = String_fromCharCode xs @ String_fromCharCode ys"
  by (simp add: String_fromCharCode_def)

lemma subarray_chunk: "subarray a i (i + n) = take n (drop i a)"
  by (simp add: subarray_def)

lemma chunk_loop_accumulates:
  "chunk_loop a i acc = acc @ String_fromCharCode (drop i a)"
proof (induction a i acc rule: chunk_loop.induct)
  case (1 a i acc)
  show ?case
  proof (cases "i < length a")
    case True
    have split: "drop i a = take chunkSize (drop i a) @ drop (i + chunkSize) a"
      using append_take_drop_id [of chunkSize "drop i a"] by (simp add: add.commute)
    have "chunk_loop a i acc =
            (acc @ String_fromCharCode (take chunkSize (drop i a)))
              @ String_fromCharCode (drop (i + chunkSize) a)"
      using True "1.IH" by (subst chunk_loop.simps) (simp add: subarray_chunk)
    also have "\<dots> = acc @ String_fromCharCode (drop i a)"
      by (subst (2) split) (simp only: String_fromCharCode_append append_assoc)
    finally show ?thesis .
  next
    case False
    then show ?thesis by (subst chunk_loop.simps) (simp add: String_fromCharCode_def)
  qed
qed

text \<open>
  C1. For every byte sequence, of any length including zero, the chunked encoding (chunks
  of 8192 bytes turned into binary strings, concatenated, then base64-encoded) is the same
  string as the base64 encoding of the whole byte sequence at once.
\<close>

theorem chunked_base64_eq_whole:
  "chunked_base64 uint8Array = whole_base64 uint8Array"
  by (simp add: chunked_base64_def whole_base64_def chunk_loop_accumulates)

section \<open>Decoding what was encoded\<close>

lemma b64_groups_sextets: "b64_groups xs = map b64_digit (sextets xs) @ padding xs"
  by (induction xs rule: sextets.induct) simp_all

lemma sextets_bound: "\<forall>x\<in>set xs. x < 256 \<Longrightarrow> \<forall>d\<in>set (sextets xs). d < 64"
  by (induction xs rule: sextets.induct) (auto simp: less_mult_imp_div_less)

lemma below_64: "n < 64 \<Longrightarrow> n \<in> set [0..<64]"
  by simp

lemma digit_facts:
  assumes "n < 64"
  shows "b64_value (b64_digit n) = Some n \<and> \<not> ascii_space (b64_digit n)
      \<and> b64_digit n \<noteq> CHR ''=''"
  using below_64 [OF assms] unfolding upt_rec [of 0 64]
  by (simp add: upt_rec) (elim disjE; simp add: b64_digit_def b64_alphabet_def b64_value_def ascii_space_def)

lemma atob_groups_sextets: "\<forall>x\<in>set xs. x < 256 \<Longrightarrow> atob_groups (sextets xs) = xs"
  by (induction xs rule: sextets.induct) (auto simp: div_mult_mod_eq)


lemma padding_cases: "padding xs = [] \<or> padding xs = ''='' \<or> padding xs = ''==''"
  by (induction xs rule: padding.induct) simp_all

lemma encoded_length: "(length (sextets xs) + length (padding xs)) mod 4 = 0"
  by (induction xs rule: sextets.induct) simp_all

lemma endsWith_iff: "endsWith s t \<longleftrightarrow> (\<exists>u. s = u @ t)"
proof
  assume "endsWith s t"
  then have "drop (length s - length t) s = t"
    by (simp add: endsWith_def)
  with append_take_drop_id [of "length s - length t" s]
  have "s = take (length s - length t) s @ t"
    by simp
  then show "\<exists>u. s = u @ t" ..
next
  assume "\<exists>u. s = u @ t"
  then show "endsWith s t"
    by (auto simp: endsWith_def)
qed

lemma strip_padding_encoded:
  assumes "\<forall>c\<in>set ds. c \<noteq> CHR ''=''"
    and "p = [] \<or> p = ''='' \<or> p = ''==''"
    and "(length ds + length p) mod 4 = 0"
  shows "strip_padding (ds @ p) = ds"
proof -
  have no_pad: "\<not> endsWith ds (CHR ''='' # t)" for t
  proof
    assume "endsWith ds (CHR ''='' # t)"
    then obtain u where "ds = u @ CHR ''='' # t"
      unfolding endsWith_iff by blast
    then have "CHR ''='' \<in> set ds"
      by simp
    with assms(1) show False by blast
  qed
  from assms(2) consider "p = []" | "p = ''=''" | "p = ''==''" by blast
  then show ?thesis
  proof cases
    case 1
    with no_pad show ?thesis by (simp add: strip_padding_def)
  next
    case 2
    have "\<not> endsWith (ds @ ''='') ''==''"
    proof
      assume "endsWith (ds @ ''='') ''==''"
      then obtain u where "ds @ ''='' = u @ ''==''"
        unfolding endsWith_iff by blast
      then have "ds @ [CHR ''=''] = (u @ [CHR ''='']) @ [CHR ''='']"
        by simp
      then have "ds = u @ [CHR ''='']"
        by (simp only: append1_eq_conv)
      with assms(1) show False by simp
    qed
    moreover have "endsWith (ds @ ''='') ''=''"
      by (simp add: endsWith_def)
    ultimately show ?thesis
      using 2 assms(3) by (simp add: strip_padding_def)
  next
    case 3
    have "endsWith (ds @ ''=='') ''==''"
      by (simp add: endsWith_def)
    with 3 assms(3) show ?thesis
      by (simp add: strip_padding_def)
  qed
qed

lemma atob_btoa: "atob (btoa s) = Inr s"
proof -
  let ?xs = "map of_char s :: nat list"
  let ?ds = "map b64_digit (sextets ?xs)"
  have small: "\<forall>x\<in>set ?xs. x < 256"
    by auto
  have six: "\<forall>d\<in>set (sextets ?xs). d < 64"
    by (rule sextets_bound [OF small])
  have enc: "btoa s = ?ds @ padding ?xs"
    by (simp add: btoa_def b64_groups_sextets)
  have digits: "\<forall>c\<in>set ?ds. c \<noteq> CHR ''=''" "\<forall>c\<in>set ?ds. \<not> ascii_space c"
    using six by (auto simp: digit_facts)
  have pad_space: "\<forall>c\<in>set (padding ?xs). \<not> ascii_space c"
    using padding_cases [of ?xs] by (auto simp: ascii_space_def)
  have keep: "filter (\<lambda>c. \<not> ascii_space c) (btoa s) = ?ds @ padding ?xs"
    unfolding enc using digits(2) pad_space by (simp add: filter_id_conv)
  have len: "(length ?ds + length (padding ?xs)) mod 4 = 0"
    using encoded_length [of ?xs] by simp
  have strip: "strip_padding (?ds @ padding ?xs) = ?ds"
    by (rule strip_padding_encoded [OF digits(1) padding_cases len])
  have not1: "length ?ds mod 4 \<noteq> 1"
    using len padding_cases [of ?xs] by (auto simp: mod_Suc split: if_splits) presburger+
  have vals: "map b64_value ?ds = map Some (sextets ?xs)"
    using six by (simp add: digit_facts)
  then have none: "None \<notin> set (map b64_value ?ds)"
    by auto
  have decode: "map (\<lambda>c. case b64_value c of Some v \<Rightarrow> v | None \<Rightarrow> 0) ?ds = sextets ?xs"
    using six by (simp add: digit_facts map_idI)
  have restored: "map char_of ?xs = s"
    by (simp add: map_idI)
  from not1 none show ?thesis
    unfolding atob_def keep strip Let_def
    by (simp only: decode atob_groups_sextets [OF small] restored if_False simp_thms)
qed

lemma bytes_of_fromCharCode: "bytes_of (String_fromCharCode uint8Array) = uint8Array"
proof -
  have "of_nat (of_char (char_of (unat b) :: char)) = b" for b :: byte
  proof -
    have "unat b < 2 ^ LENGTH(8)"
      by (rule unsigned_less)
    then have "unat b < 256"
      by simp
    then show ?thesis
      by simp
  qed
  then show ?thesis
    by (simp add: bytes_of_def String_fromCharCode_def o_def map_idI)
qed

lemma atob_chunked_base64:
  "atob (chunked_base64 uint8Array) = Inr (String_fromCharCode uint8Array)"
  by (simp add: chunked_base64_def chunk_loop_accumulates atob_btoa)

section \<open>The MIME type\<close>

lemma of_char_lower_unit:
  "(of_char (lower_unit c) :: nat) =
     (if (65 \<le> (of_char c :: nat) \<and> (of_char c :: nat) \<le> 90)
        \<or> (192 \<le> (of_char c :: nat) \<and> (of_char c :: nat) \<le> 222 \<and> (of_char c :: nat) \<noteq> 215)
      then of_char c + 32 else of_char c)"
  by (auto simp: lower_unit_def Let_def)

lemma char_eq_nat: "c = d \<longleftrightarrow> (of_char c :: nat) = of_char d"
  by simp

lemma char_of_nat_eq: "(of_char c :: nat) = n \<Longrightarrow> c = char_of n"
  by auto

lemma lower_same: 
  "d \<in> set ''.pdfjeg'' \<Longrightarrow> lower_unit c = d \<longleftrightarrow> same_letter c d"
  unfolding same_letter_def upper_ascii_def Let_def
  apply (subst (1 2) char_eq_nat)
  unfolding of_char_lower_unit
  by (auto dest: char_of_nat_eq)

lemma endsWith_toLowerCase:
  "set ext \<subseteq> set ''.pdfjeg'' \<Longrightarrow> endsWith (toLowerCase key) ext \<longleftrightarrow> ends_with_any_case key ext"
proof -
  assume ext: "set ext \<subseteq> set ''.pdfjeg''"
  have "map lower_unit xs = ext \<longleftrightarrow> list_all2 same_letter xs ext" for xs
    using ext
  proof (induction xs arbitrary: ext)
    case Nil
    then show ?case by auto
  next
    case (Cons x xs)
    show ?case
    proof (cases ext)
      case Nil
      then show ?thesis by simp
    next
      case (Cons d ds)
      with Cons.prems have "d \<in> set ''.pdfjeg''" and "set ds \<subseteq> set ''.pdfjeg''"
        by auto
      with Cons.IH [of ds] lower_same [of d x] Cons show ?thesis
        by simp
    qed
  qed
  then show ?thesis
    by (simp add: endsWith_def toLowerCase_def ends_with_any_case_def drop_map)
qed

text \<open>
  C8. The MIME type is a function of the end of the storage key alone, whatever the case
  of its letters: a key ending in \<^verbatim>\<open>.pdf\<close> gives \<^verbatim>\<open>application/pdf\<close>; a key
  ending in \<^verbatim>\<open>.jpg\<close> or \<^verbatim>\<open>.jpeg\<close> gives \<^verbatim>\<open>image/jpeg\<close>; every other key, a key
  with no extension included, gives \<^verbatim>\<open>image/png\<close>.
\<close>

theorem mimeType_by_extension:
  "mimeType_of key =
     (if ends_with_any_case key ''.pdf'' then ''application/pdf''
      else if ends_with_any_case key ''.jpg'' \<or> ends_with_any_case key ''.jpeg''
      then ''image/jpeg''
      else ''image/png'')"
  unfolding mimeType_of_def
  by (simp only: endsWith_toLowerCase [of "''.pdf''", simplified]
      endsWith_toLowerCase [of "''.jpg''", simplified]
      endsWith_toLowerCase [of "''.jpeg''", simplified])

section \<open>The guard on the file path\<close>




section \<open>Step 2: the responses\<close>

text \<open>
  C6. Whenever the request to the language model is made and its response has a status
  outside 200-299, the handler answers with status 429 for an upstream 429, with status
  402 for an upstream 402 and with status 500 for every other status, each time with a
  JSON body that holds an error message and nothing else.
\<close>

theorem structuring_failure_classified:
  assumes "GeminiParse k x \<in> set (snd (serve w))"
    and "gemini_parse w = Inr aiResponse"
    and "\<not> ok aiResponse"
  shows "fst (serve w) =
     (if fetched_status aiResponse = 429
      then error_response 429 ''Rate limit exceeded. Please try again later.''
      else if fetched_status aiResponse = 402
      then error_response 402 ''AI credits depleted. Please add funds to continue.''
      else error_response 500 ''AI processing failed'')"
  using serve_after_parse_call [OF assms(1)] step2_not_ok [OF assms(2,3)]
  by (simp add: finish_def ai_error_response_def)

theorem structuring_failure_witness:
  "fst (serve ((example_world ''[]'')\<lparr>gemini_parse := Inr \<lparr>fetched_status = 429, fetched_text = ''slow down''\<rparr>\<rparr>))
     = error_response 429 ''Rate limit exceeded. Please try again later.''
   \<and> fst (serve ((example_world ''[]'')\<lparr>gemini_parse := Inr \<lparr>fetched_status = 402, fetched_text = ''pay''\<rparr>\<rparr>))
     = error_response 402 ''AI credits depleted. Please add funds to continue.''
   \<and> fst (serve ((example_world ''[]'')\<lparr>gemini_parse := Inr \<lparr>fetched_status = 503, fetched_text = ''down''\<rparr>\<rparr>))
     = error_response 500 ''AI processing failed''"
proof -
  let ?ocr = "JStr ''1. What is 2+2? A) 3 B) 4 C) 5 D) 6 Answer: B''"
  let ?w = "\<lambda>st t. (example_world ''[]'')\<lparr>gemini_parse := Inr \<lparr>fetched_status = st, fetched_text = t\<rparr>\<rparr>"
  have g: "gemini_parse (?w st t) = Inr \<lparr>fetched_status = st, fetched_text = t\<rparr>" for st t
    by simp
  have r1: "GeminiParse ''key'' ?ocr \<in> set (snd (serve (?w 429 ''slow down'')))"
    by code_simp
  have r2: "GeminiParse ''key'' ?ocr \<in> set (snd (serve (?w 402 ''pay'')))"
    by code_simp
  have r3: "GeminiParse ''key'' ?ocr \<in> set (snd (serve (?w 503 ''down'')))"
    by code_simp
  from structuring_failure_classified [OF r1 g] structuring_failure_classified [OF r2 g]
    structuring_failure_classified [OF r3 g]
  show ?thesis
    by (simp add: ok_def)
qed



section \<open>The Upload page after an empty result\<close>


section \<open>Step 2: success\<close>






section \<open>The fences\<close>

lemma startsWith_fence_append:
  "startsWith (s @ CHR 0x0A # t) ''```'' \<Longrightarrow> startsWith s ''```''"
proof (cases s)
  case Nil
  then show "startsWith (s @ CHR 0x0A # t) ''```'' \<Longrightarrow> startsWith s ''```''"
    by (simp add: startsWith_def)
next
  case s1: (Cons a s1)
  show "startsWith (s @ CHR 0x0A # t) ''```'' \<Longrightarrow> startsWith s ''```''"
  proof (cases s1)
    case Nil
    with s1 show "startsWith (s @ CHR 0x0A # t) ''```'' \<Longrightarrow> startsWith s ''```''"
      by (simp add: startsWith_def)
  next
    case s2: (Cons b s2)
    with s1 show "startsWith (s @ CHR 0x0A # t) ''```'' \<Longrightarrow> startsWith s ''```''"
      by (cases s2) (simp_all add: startsWith_def)
  qed
qed

lemma json_fence_is_fence: "startsWith s ''```json'' \<Longrightarrow> startsWith s ''```''"
proof -
  assume "startsWith s ''```json''"
  then have "take (length ''```json'') s = ''```json''"
    by (simp only: startsWith_def)
  then have "take 3 (take (length ''```json'') s) = take 3 ''```json''"
    by (rule arg_cong)
  then show ?thesis
    by (simp add: startsWith_def)
qed

lemma remove_json_fence_none:
  "\<not> contains_fence s \<Longrightarrow>
   remove_all match_json_fence (s @ CHR 0x0A # ''```'') = s @ CHR 0x0A # ''```''"
proof (induction s)
  case Nil
  show ?case
    by (simp add: match_json_fence_def startsWith_def)
next
  case (Cons c s)
  from Cons.prems have nf: "\<not> startsWith (c # s) ''```''" and rest: "\<not> contains_fence s"
    by simp_all
  from nf have "\<not> startsWith ((c # s) @ CHR 0x0A # ''```'') ''```json''"
    using startsWith_fence_append json_fence_is_fence by blast
  then have "match_json_fence (c # s @ CHR 0x0A # ''```'') = None"
    by (simp add: match_json_fence_def)
  with Cons.IH [OF rest] show ?case
    by simp
qed

lemma remove_fence_last:
  "\<not> contains_fence s \<Longrightarrow> remove_all match_fence (s @ CHR 0x0A # ''```'') = s @ [CHR 0x0A]"
proof (induction s)
  case Nil
  show ?case
    by (simp add: match_fence_def startsWith_def optional_newline_def)
next
  case (Cons c s)
  from Cons.prems have nf: "\<not> startsWith (c # s) ''```''" and rest: "\<not> contains_fence s"
    by simp_all
  from nf have "\<not> startsWith ((c # s) @ CHR 0x0A # ''```'') ''```''"
    using startsWith_fence_append by blast
  then have "match_fence (c # s @ CHR 0x0A # ''```'') = None"
    by (simp add: match_fence_def)
  with Cons.IH [OF rest] show ?case
    by simp
qed

lemma trim_snoc_space: "js_space c \<Longrightarrow> trim (s @ [c]) = trim s"
proof (cases "\<forall>x\<in>set s. js_space x")
  case True
  assume c: "js_space c"
  from True have d1: "dropWhile js_space s = []"
    by simp
  from True c have d2: "dropWhile js_space (s @ [c]) = []"
    by simp
  show ?thesis
    unfolding trim_def d1 d2 ..
next
  case False
  assume "js_space c"
  with False show ?thesis
    by (auto simp: trim_def dropWhile_append)
qed

text \<open>
  C7, as the code has it. Post-processing removes every \<^verbatim>\<open>```json\<close> and every
  \<^verbatim>\<open>```\<close> (with the newline that follows, if there is one) wherever it stands in the
  text, and then trims white space at both ends. For every payload wrapped in
  \<^verbatim>\<open>```json\<close> and \<^verbatim>\<open>```\<close> fences whose inner content holds no \<^verbatim>\<open>```\<close>, the
  post-processed text is the inner content, trimmed; parsing it gives what parsing the
  trimmed inner content gives.
\<close>

theorem fenced_payload_cleaned:
  assumes "\<not> contains_fence inner"
  shows "cleanedText (fenced inner) = trim inner
       \<and> JSON_parse (cleanedText (fenced inner)) = JSON_parse (trim inner)"
proof -
  have "remove_all match_json_fence (fenced inner)
          = remove_all match_json_fence (inner @ CHR 0x0A # ''```'')"
    by (simp add: fenced_def match_json_fence_def startsWith_def optional_newline_def)
  with assms have "cleanedText (fenced inner) = trim (inner @ [CHR 0x0A])"
    by (simp add: cleanedText_def remove_json_fence_none remove_fence_last)
  then show ?thesis
    by (simp add: trim_snoc_space js_space_def)
qed

theorem fenced_payload_witness:
  "\<not> contains_fence ''[]''
   \<and> cleanedText (fenced ''[]'') = ''[]''
   \<and> JSON_parse (cleanedText (fenced ''[]'')) = Inr (JArr [])"
proof -
  have n: "\<not> contains_fence ''[]''"
    by (simp add: startsWith_def)
  have t: "trim ''[]'' = ''[]''"
    by (simp add: trim_def js_space_def)
  have p: "JSON_parse ''[]'' = Inr (JArr [])"
    by code_simp
  from fenced_payload_cleaned [OF n] n t p show ?thesis
    by simp
qed

text \<open>
  C7, as it is stated, fails twice. A fence inside the payload is removed as well: the
  string \<^verbatim>\<open>a```b\<close> of the inner content comes out as \<^verbatim>\<open>ab\<close>. And the trimming
  removes white space that \<^verbatim>\<open>JSON.parse\<close> does not accept: an inner content that
  starts with a vertical tab parses after post-processing and does not parse unwrapped.
\<close>

theorem interior_fence_removed:
  "cleanedText (fenced ''[\"a```b\"]'') = ''[\"ab\"]''
   \<and> JSON_parse (cleanedText (fenced ''[\"a```b\"]'')) = Inr (JArr [JStr ''ab''])
   \<and> JSON_parse ''[\"a```b\"]'' = Inr (JArr [JStr ''a```b''])
   \<and> JSON_parse (cleanedText (fenced (CHR 0x0B # ''[]''))) = Inr (JArr [])
   \<and> JSON_parse (CHR 0x0B # ''[]'') = Inl (Engine SyntaxError)"
  by code_simp

section \<open>The OCR step\<close>

lemma snd_extractWithGemini: "snd (extractWithGemini w b m k) = [GeminiOcr k m b]"
proof (cases "gemini_ocr w")
  case (Inl e)
  then show ?thesis by (simp add: extractWithGemini_def)
next
  case (Inr ocrResponse)
  have "emits_only (\<lambda>e. False)
     (andThen (if \<not> ok ocrResponse
              then throw (Error (''Gemini OCR failed: '' @ fetched_text ocrResponse))
              else succeed ()) (\<lambda>_.
     andThen (attempt (JSON_parse (fetched_text ocrResponse))) (\<lambda>ocrData.
     attempt (choices_content ocrData))))"
    by (intro emits_only_andThen emits_only_if) simp_all
  from emits_nothing [OF this] Inr show ?thesis
    by (simp add: extractWithGemini_def)
qed

lemma filestack_trace:
  "list_all is_filestack (snd (processPdfWithFilestack w b k))"
  using emits_processPdfWithFilestack [of w b k] by (simp add: emits_only_def)

lemma filestack_no_gemini: "list_all is_filestack t \<Longrightarrow> filter is_gemini_ocr t = []"
proof -
  assume "list_all is_filestack t"
  moreover have "\<not> is_gemini_ocr e" if "is_filestack e" for e
    using that by (cases e) simp_all
  ultimately show ?thesis
    by (auto simp: list_all_iff filter_empty_conv)
qed

lemma filestack_never_returns: "fst (processPdfWithFilestack w b k) \<noteq> Return r"
  using returns_processPdfWithFilestack [of w b k]
  by (auto simp: returns_only_def)

lemma filestack_store_first:
  "atob b = Inr s \<Longrightarrow>
   take 1 (snd (processPdfWithFilestack w b k)) = [FilestackStore k (bytes_of s)]"
  by (cases "filestack_store w") (simp_all add: processPdfWithFilestack_def)

lemma ocr_step_pdf:
  "ends_with_any_case filePath ''.pdf'' \<and> env_set (env_OCR_API_KEY w) \<Longrightarrow>
   ocr_step w filePath encoded mimeType key =
      tryCatch (processPdfWithFilestack w encoded (env_value (env_OCR_API_KEY w)))
        (\<lambda>error. extractWithGemini w encoded mimeType key)"
  by (simp add: ocr_step_def Let_def endsWith_toLowerCase [of "''.pdf''", simplified])

lemma ocr_step_store_first:
  assumes "ends_with_any_case filePath ''.pdf'' \<and> env_set (env_OCR_API_KEY w)"
    and "atob encoded = Inr s"
  shows "take 1 (snd (ocr_step w filePath encoded mimeType key))
           = [FilestackStore (env_value (env_OCR_API_KEY w)) (bytes_of s)]"
proof -
  obtain out t0 where F: "processPdfWithFilestack w encoded (env_value (env_OCR_API_KEY w)) = (out, t0)"
    by (cases "processPdfWithFilestack w encoded (env_value (env_OCR_API_KEY w))")
  from filestack_store_first [OF assms(2), of w "env_value (env_OCR_API_KEY w)"] F
  have "take 1 t0 = [FilestackStore (env_value (env_OCR_API_KEY w)) (bytes_of s)]"
    by simp
  then show ?thesis
    unfolding ocr_step_pdf [OF assms(1)] F
    by (cases out; cases t0) (simp_all add: tryCatch_def case_prod_beta)
qed

lemma get_length_defined: "x \<noteq> JNull \<Longrightarrow> x \<noteq> JUndefined \<Longrightarrow> \<exists>n. get_length x = Inr n"
  by (cases x) simp_all

lemma serve_runs_ocr_step:
  assumes "req_method w \<noteq> ''OPTIONS''"
    and "req_json w = Inr (JObj members)"
    and "own_property members ''filePath'' = JStr filePath"
    and "filePath \<noteq> []"
    and "createClient w = Inr ()"
    and "storage_download w = Inr (DownloadData uint8Array)"
    and "env_set (env_LOVABLE_API_KEY w)"
    and "encoded = chunked_base64 uint8Array"
    and "mimeType = mimeType_of filePath"
    and "key = env_value (env_LOVABLE_API_KEY w)"
  shows "\<exists>rest. snd (serve w) =
           StorageDownload (JStr filePath) # snd (ocr_step w filePath encoded mimeType key) @ rest
         \<and> (\<forall>x. fst (ocr_step w filePath encoded mimeType key) = Normal x
                \<and> x \<noteq> JNull \<and> x \<noteq> JUndefined \<longrightarrow> rest = [GeminiParse key x])
         \<and> (\<forall>e. fst (ocr_step w filePath encoded mimeType key) = Throw e \<longrightarrow>
                rest = [] \<and> fst (serve w) = error_response 500 (error_text w e))
         \<and> (ends_with_any_case filePath ''.pdf'' \<and> env_set (env_OCR_API_KEY w) \<longrightarrow>
                take 2 (snd (serve w)) =
                  [StorageDownload (JStr filePath),
                   FilestackStore (env_value (env_OCR_API_KEY w)) uint8Array])"
proof -
  let ?ocr = "ocr_step w filePath encoded mimeType key"
  have first: "take 1 (snd ?ocr) = [FilestackStore (env_value (env_OCR_API_KEY w)) uint8Array]"
    if "ends_with_any_case filePath ''.pdf'' \<and> env_set (env_OCR_API_KEY w)"
    using ocr_step_store_first [OF that, of encoded "String_fromCharCode uint8Array" mimeType key]
      assms(8)
    by (simp add: atob_chunked_base64 bytes_of_fromCharCode)
  have two: "take 2 (StorageDownload (JStr filePath) # snd ?ocr @ rest) =
      [StorageDownload (JStr filePath), FilestackStore (env_value (env_OCR_API_KEY w)) uint8Array]"
    if "ends_with_any_case filePath ''.pdf'' \<and> env_set (env_OCR_API_KEY w)" for rest
    using first [OF that] by (cases "snd ?ocr") simp_all
  have load: "load_document w =
      (Normal (filePath, encoded, mimeType), [StorageDownload (JStr filePath)])"
    using assms(2-6,8,9) by (simp add: load_document_def succeed_def)
  obtain out t where ocr: "?ocr = (out, t)" by (cases ?ocr)
  show ?thesis
  proof (cases out)
    case (Normal x)
    show ?thesis
    proof (cases "get_length x")
      case (Inl e)
      then have "x = JNull \<or> x = JUndefined"
        using get_length_defined [of x] by auto
      with assms(1,7,10) load ocr Normal Inl two [of "[]"] show ?thesis
        by (auto simp: serve_def handler_try_def step1_ocr_def throw_def)
    next
      case (Inr n)
      with assms(1,7,10) load ocr Normal two [of "[GeminiParse key x]"] show ?thesis
        by (simp add: serve_def handler_try_def step1_ocr_def succeed_def snd_step2_parse)
    qed
  next
    case (Return r)
    with returns_ocr_step [of w filePath encoded mimeType key] ocr show ?thesis
      by (simp add: returns_only_def)
  next
    case (Throw e)
    with assms(1,7,10) load ocr two [of "[]"] show ?thesis
      by (simp add: serve_def handler_try_def step1_ocr_def finish_def)
  qed
qed

text \<open>
  C3. An invocation that gets as far as the OCR step (a request with a non-empty string
  \<^verbatim>\<open>filePath\<close>, a download that succeeds, the key of the language model configured)
  makes its calls in this order: the storage download, the calls of the OCR step, and
  then at most the request of Step 2, which carries the text the OCR step ended with;
  when the OCR step throws, the invocation ends with status 500 and the error's message;
  for a \<^verbatim>\<open>.pdf\<close> key with the OCR credential configured, the call after the
  download is the upload of the document's bytes to the OCR service.
  In the OCR step, for a key that ends in \<^verbatim>\<open>.pdf\<close> with the OCR credential configured,
  \<^verbatim>\<open>processPdfWithFilestack\<close> is run first (its upload is the first call of the
  step); if it returns, its text is the result and no OCR request goes to the vision
  model; if it throws, whatever the failure, \<^verbatim>\<open>extractWithGemini\<close> is run exactly once,
  after the calls of the failed attempt, and its outcome is the outcome of the step. For
  every other key, and for a \<^verbatim>\<open>.pdf\<close> key without the credential, the step is
  \<^verbatim>\<open>extractWithGemini\<close> alone: one OCR request to the vision model and no call to the
  OCR service.
\<close>

theorem ocr_strategy_selection:
  "(req_method w \<noteq> ''OPTIONS'' \<and> req_json w = Inr (JObj members)
      \<and> own_property members ''filePath'' = JStr filePath \<and> filePath \<noteq> []
      \<and> createClient w = Inr () \<and> storage_download w = Inr (DownloadData uint8Array)
      \<and> env_set (env_LOVABLE_API_KEY w)
      \<and> encoded = chunked_base64 uint8Array \<and> mimeType = mimeType_of filePath
      \<and> key = env_value (env_LOVABLE_API_KEY w) \<longrightarrow>
      (\<exists>rest. snd (serve w) =
           StorageDownload (JStr filePath) # snd (ocr_step w filePath encoded mimeType key) @ rest
         \<and> (\<forall>x. fst (ocr_step w filePath encoded mimeType key) = Normal x
                \<and> x \<noteq> JNull \<and> x \<noteq> JUndefined \<longrightarrow> rest = [GeminiParse key x])
         \<and> (\<forall>e. fst (ocr_step w filePath encoded mimeType key) = Throw e \<longrightarrow>
                rest = [] \<and> fst (serve w) = error_response 500 (error_text w e))
         \<and> (ends_with_any_case filePath ''.pdf'' \<and> env_set (env_OCR_API_KEY w) \<longrightarrow>
                take 2 (snd (serve w)) =
                  [StorageDownload (JStr filePath),
                   FilestackStore (env_value (env_OCR_API_KEY w)) uint8Array])))
 \<and> (ends_with_any_case filePath ''.pdf'' \<and> env_set (env_OCR_API_KEY w) \<longrightarrow>
      (\<forall>s. atob encoded = Inr s \<longrightarrow>
         take 1 (snd (ocr_step w filePath encoded mimeType key))
           = [FilestackStore (env_value (env_OCR_API_KEY w)) (bytes_of s)])
    \<and> (\<forall>extracted t. processPdfWithFilestack w encoded (env_value (env_OCR_API_KEY w)) = (Normal extracted, t) \<longrightarrow>
         ocr_step w filePath encoded mimeType key = (Normal extracted, t)
       \<and> filter is_gemini_ocr (snd (ocr_step w filePath encoded mimeType key)) = [])
    \<and> (\<forall>e t. processPdfWithFilestack w encoded (env_value (env_OCR_API_KEY w)) = (Throw e, t) \<longrightarrow>
         ocr_step w filePath encoded mimeType key
           = (fst (extractWithGemini w encoded mimeType key), t @ [GeminiOcr key mimeType encoded])
       \<and> list_all is_filestack t
       \<and> filter is_gemini_ocr (snd (ocr_step w filePath encoded mimeType key))
           = [GeminiOcr key mimeType encoded])
    \<and> (\<forall>r t. processPdfWithFilestack w encoded (env_value (env_OCR_API_KEY w)) \<noteq> (Return r, t)))
 \<and> (\<not> (ends_with_any_case filePath ''.pdf'' \<and> env_set (env_OCR_API_KEY w)) \<longrightarrow>
      ocr_step w filePath encoded mimeType key = extractWithGemini w encoded mimeType key
    \<and> snd (ocr_step w filePath encoded mimeType key) = [GeminiOcr key mimeType encoded])"
proof (intro conjI impI allI)
  assume "req_method w \<noteq> ''OPTIONS'' \<and> req_json w = Inr (JObj members)
      \<and> own_property members ''filePath'' = JStr filePath \<and> filePath \<noteq> []
      \<and> createClient w = Inr () \<and> storage_download w = Inr (DownloadData uint8Array)
      \<and> env_set (env_LOVABLE_API_KEY w)
      \<and> encoded = chunked_base64 uint8Array \<and> mimeType = mimeType_of filePath
      \<and> key = env_value (env_LOVABLE_API_KEY w)"
  then show "\<exists>rest. snd (serve w) =
           StorageDownload (JStr filePath) # snd (ocr_step w filePath encoded mimeType key) @ rest
         \<and> (\<forall>x. fst (ocr_step w filePath encoded mimeType key) = Normal x
                \<and> x \<noteq> JNull \<and> x \<noteq> JUndefined \<longrightarrow> rest = [GeminiParse key x])
         \<and> (\<forall>e. fst (ocr_step w filePath encoded mimeType key) = Throw e \<longrightarrow>
                rest = [] \<and> fst (serve w) = error_response 500 (error_text w e))
         \<and> (ends_with_any_case filePath ''.pdf'' \<and> env_set (env_OCR_API_KEY w) \<longrightarrow>
                take 2 (snd (serve w)) =
                  [StorageDownload (JStr filePath),
                   FilestackStore (env_value (env_OCR_API_KEY w)) uint8Array])"
    using serve_runs_ocr_step [of w members filePath uint8Array encoded mimeType key] by blast
next
  assume pdf: "ends_with_any_case filePath ''.pdf'' \<and> env_set (env_OCR_API_KEY w)"
  then have step: "ocr_step w filePath encoded mimeType key =
      tryCatch (processPdfWithFilestack w encoded (env_value (env_OCR_API_KEY w)))
        (\<lambda>error. extractWithGemini w encoded mimeType key)"
    by (rule ocr_step_pdf)
  {
    fix s assume "atob encoded = Inr s"
    with pdf show "take 1 (snd (ocr_step w filePath encoded mimeType key))
           = [FilestackStore (env_value (env_OCR_API_KEY w)) (bytes_of s)]"
      by (rule ocr_step_store_first)
  }
  {
    fix extracted t
    assume N: "processPdfWithFilestack w encoded (env_value (env_OCR_API_KEY w)) = (Normal extracted, t)"
    then show "ocr_step w filePath encoded mimeType key = (Normal extracted, t)"
      by (simp add: step tryCatch_def)
    with filestack_trace [of w encoded "env_value (env_OCR_API_KEY w)"] N
    show "filter is_gemini_ocr (snd (ocr_step w filePath encoded mimeType key)) = []"
      by (simp add: filestack_no_gemini)
  }
  {
    fix e t
    assume T: "processPdfWithFilestack w encoded (env_value (env_OCR_API_KEY w)) = (Throw e, t)"
    then show eq: "ocr_step w filePath encoded mimeType key
           = (fst (extractWithGemini w encoded mimeType key), t @ [GeminiOcr key mimeType encoded])"
      by (simp add: step tryCatch_def case_prod_beta snd_extractWithGemini)
    from filestack_trace [of w encoded "env_value (env_OCR_API_KEY w)"] T
    show fs: "list_all is_filestack t"
      by simp
    from eq fs show "filter is_gemini_ocr (snd (ocr_step w filePath encoded mimeType key))
           = [GeminiOcr key mimeType encoded]"
      by (simp add: filestack_no_gemini)
  }
  {
    fix r t
    from filestack_never_returns [of w encoded "env_value (env_OCR_API_KEY w)" r]
    show "processPdfWithFilestack w encoded (env_value (env_OCR_API_KEY w)) \<noteq> (Return r, t)"
      by auto
  }
next
  assume "\<not> (ends_with_any_case filePath ''.pdf'' \<and> env_set (env_OCR_API_KEY w))"
  then show eq: "ocr_step w filePath encoded mimeType key = extractWithGemini w encoded mimeType key"
    by (auto simp: ocr_step_def Let_def endsWith_toLowerCase [of "''.pdf''", simplified])
  then show "snd (ocr_step w filePath encoded mimeType key) = [GeminiOcr key mimeType encoded]"
    by (simp add: snd_extractWithGemini)
qed

theorem ocr_strategy_witness:
  "ocr_step
     ((example_world ''[]'')\<lparr>env_OCR_API_KEY := Some ''ocr-key'',
        filestack_store := Inr \<lparr>fetched_status = 200, fetched_text = ''{\"handle\":\"h1\"}''\<rparr>,
        filestack_output := Inr \<lparr>fetched_status = 200, fetched_text = ''{\"text\":\"Q1\"}''\<rparr>\<rparr>)
     ''exam.PDF'' ''TWFu'' ''application/pdf'' ''key''
     = (Normal (JStr ''Q1''),
        [FilestackStore ''ocr-key'' [77, 97, 110], FilestackOutput ''ocr-key'' (JStr ''h1'')])
   \<and> ocr_step
     ((example_world ''[]'')\<lparr>env_OCR_API_KEY := Some ''ocr-key'',
        filestack_store := Inr \<lparr>fetched_status = 500, fetched_text = ''no''\<rparr>\<rparr>)
     ''exam.PDF'' ''TWFu'' ''application/pdf'' ''key''
     = (Normal (JStr ''1. What is 2+2? A) 3 B) 4 C) 5 D) 6 Answer: B''),
        [FilestackStore ''ocr-key'' [77, 97, 110], GeminiOcr ''key'' ''application/pdf'' ''TWFu''])
   \<and> snd (ocr_step (example_world ''[]'') ''123.png'' ''TWFu'' ''image/png'' ''key'')
     = [GeminiOcr ''key'' ''image/png'' ''TWFu'']
   \<and> snd (serve (example_world ''[]''))
     = [StorageDownload (JStr ''123.png''), GeminiOcr ''key'' ''image/png'' ''TWFu'',
        GeminiParse ''key'' (JStr ''1. What is 2+2? A) 3 B) 4 C) 5 D) 6 Answer: B'')]
   \<and> take 2 (snd (serve
       ((example_world ''[]'')\<lparr>req_json := Inr (JObj [(''filePath'', JStr ''exam.PDF'')]),
          env_OCR_API_KEY := Some ''ocr-key''\<rparr>)))
     = [StorageDownload (JStr ''exam.PDF''), FilestackStore ''ocr-key'' [77, 97, 110]]"
proof -
  let ?good = "(example_world ''[]'')\<lparr>env_OCR_API_KEY := Some ''ocr-key'',
        filestack_store := Inr \<lparr>fetched_status = 200, fetched_text = ''{\"handle\":\"h1\"}''\<rparr>,
        filestack_output := Inr \<lparr>fetched_status = 200, fetched_text = ''{\"text\":\"Q1\"}''\<rparr>\<rparr>"
  let ?bad = "(example_world ''[]'')\<lparr>env_OCR_API_KEY := Some ''ocr-key'',
        filestack_store := Inr \<lparr>fetched_status = 500, fetched_text = ''no''\<rparr>\<rparr>"
  let ?text = "JStr ''1. What is 2+2? A) 3 B) 4 C) 5 D) 6 Answer: B''"
  have pdf: "ends_with_any_case ''exam.PDF'' ''.pdf''"
    by code_simp
  have png: "\<not> ends_with_any_case ''123.png'' ''.pdf''"
    by code_simp
  have key: "env_set (env_OCR_API_KEY ?good)" "env_value (env_OCR_API_KEY ?good) = ''ocr-key''"
    "env_set (env_OCR_API_KEY ?bad)" "env_value (env_OCR_API_KEY ?bad) = ''ocr-key''"
    by (simp_all add: env_set_def env_value_def)
  have f1: "processPdfWithFilestack ?good ''TWFu'' ''ocr-key''
      = (Normal (JStr ''Q1''),
         [FilestackStore ''ocr-key'' [77, 97, 110], FilestackOutput ''ocr-key'' (JStr ''h1'')])"
    by code_simp
  have f2: "processPdfWithFilestack ?bad ''TWFu'' ''ocr-key''
      = (Throw (Error ''Failed to upload PDF to Filestack''), [FilestackStore ''ocr-key'' [77, 97, 110]])"
    by code_simp
  have g2: "fst (extractWithGemini ?bad ''TWFu'' ''application/pdf'' ''key'') = Normal ?text"
    by code_simp
  have g3: "fst (extractWithGemini (example_world ''[]'') ''TWFu'' ''image/png'' ''key'') = Normal ?text"
    by code_simp
  from ocr_strategy_selection [where filePath = "''exam.PDF''" and w = ?good
      and encoded = "''TWFu''" and mimeType = "''application/pdf''" and key = "''key''"]
    pdf key f1
  have a: "ocr_step ?good ''exam.PDF'' ''TWFu'' ''application/pdf'' ''key''
      = (Normal (JStr ''Q1''),
         [FilestackStore ''ocr-key'' [77, 97, 110], FilestackOutput ''ocr-key'' (JStr ''h1'')])"
    by simp
  from ocr_strategy_selection [where filePath = "''exam.PDF''" and w = ?bad
      and encoded = "''TWFu''" and mimeType = "''application/pdf''" and key = "''key''"]
    pdf key f2 g2
  have b: "ocr_step ?bad ''exam.PDF'' ''TWFu'' ''application/pdf'' ''key''
      = (Normal ?text,
         [FilestackStore ''ocr-key'' [77, 97, 110], GeminiOcr ''key'' ''application/pdf'' ''TWFu''])"
    by simp
  note sel = ocr_strategy_selection [where filePath = "''123.png''" and w = "example_world ''[]''"
      and encoded = "''TWFu''" and mimeType = "''image/png''" and key = "''key''"
      and members = "[(''filePath'', JStr ''123.png'')]" and uint8Array = "[77, 97, 110]"]
  from sel png
  have c: "ocr_step (example_world ''[]'') ''123.png'' ''TWFu'' ''image/png'' ''key''
             = extractWithGemini (example_world ''[]'') ''TWFu'' ''image/png'' ''key''"
    and c': "snd (ocr_step (example_world ''[]'') ''123.png'' ''TWFu'' ''image/png'' ''key'')
      = [GeminiOcr ''key'' ''image/png'' ''TWFu'']"
    by blast+
  have reach: "req_method (example_world ''[]'') \<noteq> ''OPTIONS''"
    "req_json (example_world ''[]'') = Inr (JObj [(''filePath'', JStr ''123.png'')])"
    "own_property [(''filePath'', JStr ''123.png'')] ''filePath'' = JStr ''123.png''"
    "createClient (example_world ''[]'') = Inr ()"
    "storage_download (example_world ''[]'') = Inr (DownloadData [77, 97, 110])"
    "env_set (env_LOVABLE_API_KEY (example_world ''[]''))"
    "''key'' = env_value (env_LOVABLE_API_KEY (example_world ''[]''))"
    by (simp_all add: example_world_def env_set_def env_value_def)
  have enc: "''TWFu'' = chunked_base64 [77, 97, 110]"
    by code_simp
  have mime: "''image/png'' = mimeType_of ''123.png''"
    by code_simp
  from sel reach enc mime
  obtain rest where r: "snd (serve (example_world ''[]'')) =
         StorageDownload (JStr ''123.png'')
         # snd (ocr_step (example_world ''[]'') ''123.png'' ''TWFu'' ''image/png'' ''key'') @ rest"
     and used: "\<forall>x. fst (ocr_step (example_world ''[]'') ''123.png'' ''TWFu'' ''image/png'' ''key'') = Normal x
                \<and> x \<noteq> JNull \<and> x \<noteq> JUndefined \<longrightarrow> rest = [GeminiParse ''key'' x]"
    by auto
  from used c g3 have "rest = [GeminiParse ''key'' ?text]"
    by simp
  with r c' have d: "snd (serve (example_world ''[]''))
     = [StorageDownload (JStr ''123.png''), GeminiOcr ''key'' ''image/png'' ''TWFu'',
        GeminiParse ''key'' ?text]"
    by simp
  let ?pdf = "(example_world ''[]'')\<lparr>req_json := Inr (JObj [(''filePath'', JStr ''exam.PDF'')]),
          env_OCR_API_KEY := Some ''ocr-key''\<rparr>"
  have reach_pdf: "req_method ?pdf \<noteq> ''OPTIONS''"
    "req_json ?pdf = Inr (JObj [(''filePath'', JStr ''exam.PDF'')])"
    "own_property [(''filePath'', JStr ''exam.PDF'')] ''filePath'' = JStr ''exam.PDF''"
    "createClient ?pdf = Inr ()"
    "storage_download ?pdf = Inr (DownloadData [77, 97, 110])"
    "env_set (env_LOVABLE_API_KEY ?pdf)"
    "''key'' = env_value (env_LOVABLE_API_KEY ?pdf)"
    "env_set (env_OCR_API_KEY ?pdf)" "env_value (env_OCR_API_KEY ?pdf) = ''ocr-key''"
    by (simp_all add: example_world_def env_set_def env_value_def)
  have mime_pdf: "''application/pdf'' = mimeType_of ''exam.PDF''"
    by code_simp
  from ocr_strategy_selection [where filePath = "''exam.PDF''" and w = ?pdf
      and encoded = "''TWFu''" and mimeType = "''application/pdf''" and key = "''key''"
      and members = "[(''filePath'', JStr ''exam.PDF'')]" and uint8Array = "[77, 97, 110]"]
    reach_pdf enc mime_pdf pdf
  have e: "take 2 (snd (serve ?pdf))
     = [StorageDownload (JStr ''exam.PDF''), FilestackStore ''ocr-key'' [77, 97, 110]]"
    by auto
  from a b c' d e show ?thesis
    by simp
qed

section \<open>The score\<close>

lemma answer_or_empty_recorded: "answer_or_empty answers i = recorded answers i"
  by (simp add: answer_or_empty_def recorded_def split: option.splits)

lemma mark_length: "length (fst (mark answers qs idx c)) = length qs"
  by (induction qs arbitrary: idx c) (simp_all add: Let_def case_prod_beta)

lemma mark_item:
  "i < length qs \<Longrightarrow>
   fst (mark answers qs idx c) ! i =
     \<lparr>question = question (qs ! i), options = options (qs ! i),
      correctAnswer = correctAnswer (qs ! i),
      userAnswer = recorded answers (idx + i),
      isCorrect = (recorded answers (idx + i) = correctAnswer (qs ! i))\<rparr>"
proof (induction qs arbitrary: idx c i)
  case Nil
  then show ?case by simp
next
  case (Cons q qs)
  show ?case
  proof (cases i)
    case 0
    then show ?thesis
      by (simp add: Let_def answer_or_empty_recorded case_prod_beta)
  next
    case (Suc j)
    with Cons.prems have "j < length qs" by simp
    from Cons.IH [OF this, of "idx + 1"] Suc show ?thesis
      by (simp add: Let_def case_prod_beta)
  qed
qed

lemma count_shift:
  "length [i \<leftarrow> [0..<Suc n]. P i] = (if P 0 then 1 else 0) + length [i \<leftarrow> [0..<n]. P (Suc i)]"
proof -
  have "[0..<Suc n] = 0 # map Suc [0..<n]"
    by (simp add: upt_conv_Cons map_Suc_upt del: upt_Suc)
  then show ?thesis
    by (simp add: filter_map o_def del: upt_Suc)
qed

lemma mark_count:
  "snd (mark answers qs idx c) =
     c + length [i \<leftarrow> [0..<length qs]. recorded answers (idx + i) = correctAnswer (qs ! i)]"
proof (induction qs arbitrary: idx c)
  case Nil
  then show ?case by simp
next
  case (Cons q qs)
  have "snd (mark answers (q # qs) idx c) =
          snd (mark answers qs (idx + 1)
                 (if recorded answers idx = correctAnswer q then c + 1 else c))"
    by (simp add: Let_def answer_or_empty_recorded case_prod_beta)
  also have "\<dots> = (if recorded answers idx = correctAnswer q then c + 1 else c)
      + length [i \<leftarrow> [0..<length qs]. recorded answers (idx + 1 + i) = correctAnswer (qs ! i)]"
    by (rule Cons.IH)
  also have "\<dots> = c + length [i \<leftarrow> [0..<length (q # qs)].
                              recorded answers (idx + i) = correctAnswer ((q # qs) ! i)]"
    by (simp add: count_shift del: upt_Suc)
  finally show ?case .
qed

text \<open>
  C10, as the code has it. For every question array and every answer map, submitting the
  exam gives a score equal to the number of indices whose recorded answer (the empty
  string for an index without an answer) equals that question's \<^verbatim>\<open>correctAnswer\<close>; the
  total is the number of questions; each result holds the recorded answer, and its
  \<^verbatim>\<open>isCorrect\<close> flag holds exactly when the recorded answer equals \<^verbatim>\<open>correctAnswer\<close>;
  the score is at most the total; and an index without an answer is correct exactly when
  that question's \<^verbatim>\<open>correctAnswer\<close> is the empty string.
\<close>

theorem handleSubmit_score:
  "score (snd (handleSubmit questions answers)) =
     length [i \<leftarrow> [0..<length questions]. recorded answers i = correctAnswer (questions ! i)]
   \<and> total (snd (handleSubmit questions answers)) = length questions
   \<and> length (results (snd (handleSubmit questions answers))) = length questions
   \<and> (\<forall>i < length questions.
         userAnswer (results (snd (handleSubmit questions answers)) ! i) = recorded answers i
       \<and> isCorrect (results (snd (handleSubmit questions answers)) ! i)
           = (recorded answers i = correctAnswer (questions ! i)))
   \<and> score (snd (handleSubmit questions answers)) \<le> total (snd (handleSubmit questions answers))
   \<and> (\<forall>i < length questions. answers i = None \<longrightarrow>
         isCorrect (results (snd (handleSubmit questions answers)) ! i)
           = (correctAnswer (questions ! i) = []))"
proof -
  obtain items n where m: "mark answers questions 0 0 = (items, n)"
    by (cases "mark answers questions 0 0")
  have hs: "snd (handleSubmit questions answers)
              = \<lparr>results = items, score = n, total = length questions\<rparr>"
    by (simp add: handleSubmit_def m)
  have n: "n = length [i \<leftarrow> [0..<length questions].
                       recorded answers i = correctAnswer (questions ! i)]"
    using mark_count [of answers questions 0 0] m by simp
  have len: "length items = length questions"
    using mark_length [of answers questions 0 0] m by simp
  have item: "userAnswer (items ! i) = recorded answers i
            \<and> isCorrect (items ! i) = (recorded answers i = correctAnswer (questions ! i))"
    if "i < length questions" for i
    using mark_item [OF that, of answers 0 0] m by simp
  have bound: "n \<le> length questions"
    unfolding n using length_filter_le [of _ "[0..<length questions]"] by simp
  have unanswered: "isCorrect (items ! i) = (correctAnswer (questions ! i) = [])"
    if "i < length questions" "answers i = None" for i
    using item [OF that(1)] that(2) by (auto simp: recorded_def)
  from n len item bound unanswered show ?thesis
    unfolding hs by simp
qed

theorem handleSubmit_score_witness:
  "score (snd (handleSubmit
     [\<lparr>question = ''2+2?'', options = [''3'', ''4'', ''5'', ''6''], correctAnswer = ''B''\<rparr>,
      \<lparr>question = ''1+1?'', options = [''1'', ''2'', ''3'', ''4''], correctAnswer = ''B''\<rparr>]
     [0 \<mapsto> ''B''])) = 1
   \<and> total (snd (handleSubmit
     [\<lparr>question = ''2+2?'', options = [''3'', ''4'', ''5'', ''6''], correctAnswer = ''B''\<rparr>,
      \<lparr>question = ''1+1?'', options = [''1'', ''2'', ''3'', ''4''], correctAnswer = ''B''\<rparr>]
     [0 \<mapsto> ''B''])) = 2
   \<and> \<not> isCorrect (results (snd (handleSubmit
     [\<lparr>question = ''2+2?'', options = [''3'', ''4'', ''5'', ''6''], correctAnswer = ''B''\<rparr>,
      \<lparr>question = ''1+1?'', options = [''1'', ''2'', ''3'', ''4''], correctAnswer = ''B''\<rparr>]
     [0 \<mapsto> ''B''])) ! 1)"
proof -
  let ?qs = "[\<lparr>question = ''2+2?'', options = [''3'', ''4'', ''5'', ''6''], correctAnswer = ''B''\<rparr>,
      \<lparr>question = ''1+1?'', options = [''1'', ''2'', ''3'', ''4''], correctAnswer = ''B''\<rparr>]"
  let ?answers = "[0 \<mapsto> ''B''] :: nat \<rightharpoonup> string"
  have idx: "[0..<length ?qs] = [0, 1]"
    by (simp add: upt_rec)
  have none: "?answers 1 = None"
    by simp
  from handleSubmit_score [of ?qs ?answers] idx none show ?thesis
    by (simp add: recorded_def)
qed

text \<open>
  C10, as it is stated, fails: it says that an index without an answer is never correct.
  For a question whose \<^verbatim>\<open>correctAnswer\<close> is the empty string, the index without an
  answer is marked correct and counted in the score.
\<close>

theorem unanswered_counted_correct:
  "(Map.empty :: nat \<rightharpoonup> string) 0 = None
   \<and> isCorrect (results (snd (handleSubmit
        [\<lparr>question = ''Q'', options = [''a'', ''b'', ''c'', ''d''], correctAnswer = ''''\<rparr>]
        Map.empty)) ! 0)
   \<and> score (snd (handleSubmit
        [\<lparr>question = ''Q'', options = [''a'', ''b'', ''c'', ''d''], correctAnswer = ''''\<rparr>]
        Map.empty)) = 1"
  by (simp add: handleSubmit_def answer_or_empty_def)

end
